theory Spec2Isabelle
  imports Main
begin

section \<open>Python values, exceptions and the runtime\<close>

text \<open>
  The values a caller or a line parser can hand to the store: text, integers, floating
  point numbers, \<open>None\<close> and (nested) lists of these. Floating point numbers are
  kept abstract: the type variable \<open>'f\<close> stands for Python's \<open>float\<close>.
\<close>

datatype 'f pyval =
    PStr string
  | PInt int
  | PFloat 'f
  | PNone
  | PList "'f pyval list"

text \<open>
  Exceptions as values. \<open>ValueError\<close> carries the message when the repository's own
  code raises it; \<open>BuiltinValueError\<close> is the \<open>ValueError\<close> of \<open>int()\<close> and
  \<open>float()\<close> on a malformed literal.
\<close>

datatype error =
    ValueError string
  | BuiltinValueError
  | TypeError
  | IndexError
  | KeyError string
  | OverflowError
  | FileNotFoundError
  | IsADirectoryError
  | NotADirectoryError
  | SameFileError
  | LineError string

datatype dtype = DStr | DInt | DFloat

text \<open>
  What the code takes from the Python runtime and the platform and does not define
  itself: \<open>os.path.abspath\<close>, the parsing of an integer literal, the conversions that
  involve \<open>float\<close>, and \<open>repr\<close> of text.
\<close>

record 'f env =
  abspath :: "string \<Rightarrow> string"
  int_of_str :: "string \<Rightarrow> int option"
  float_of_str :: "string \<Rightarrow> 'f option"
  float_of_int :: "int \<Rightarrow> 'f option"
  int_of_float :: "'f \<Rightarrow> error + int"
  str_of_float :: "'f \<Rightarrow> string"
  repr_str :: "string \<Rightarrow> string"

subsection \<open>Builtins: \<open>str\<close>, \<open>int\<close>, \<open>float\<close>, \<open>len\<close>, indexing, \<open>join\<close>\<close>

definition digit_char :: "nat \<Rightarrow> char" where
  "digit_char d = ''0123456789'' ! d"

function str_of_nat :: "nat \<Rightarrow> string" where
  "str_of_nat n = (if n < 10 then [digit_char n] else str_of_nat (n div 10) @ [digit_char (n mod 10)])"
  by pat_completeness auto
termination
  by (relation "measure (\<lambda>n. n)") auto

declare str_of_nat.simps [simp del]

definition str_of_int :: "int \<Rightarrow> string" where
  "str_of_int i = (if i < 0 then CHR ''-'' # str_of_nat (nat (- i)) else str_of_nat (nat i))"

fun py_join :: "string \<Rightarrow> string list \<Rightarrow> string" where
  "py_join sep [] = []"
| "py_join sep [x] = x"
| "py_join sep (x # y # ys) = x @ sep @ py_join sep (y # ys)"

fun py_repr :: "'f env \<Rightarrow> 'f pyval \<Rightarrow> string" where
  "py_repr E (PStr s) = repr_str E s"
| "py_repr E (PInt n) = str_of_int n"
| "py_repr E (PFloat x) = str_of_float E x"
| "py_repr E PNone = ''None''"
| "py_repr E (PList xs) = ''['' @ py_join '', '' (map (py_repr E) xs) @ '']''"

definition py_str :: "'f env \<Rightarrow> 'f pyval \<Rightarrow> string" where
  "py_str E v = (case v of PStr s \<Rightarrow> s | _ \<Rightarrow> py_repr E v)"

definition py_int :: "'f env \<Rightarrow> 'f pyval \<Rightarrow> error + int" where
  "py_int E v =
     (case v of
        PInt n \<Rightarrow> Inr n
      | PFloat x \<Rightarrow> int_of_float E x
      | PStr s \<Rightarrow> (case int_of_str E s of None \<Rightarrow> Inl BuiltinValueError | Some n \<Rightarrow> Inr n)
      | PNone \<Rightarrow> Inl TypeError
      | PList xs \<Rightarrow> Inl TypeError)"

definition py_float :: "'f env \<Rightarrow> 'f pyval \<Rightarrow> error + 'f" where
  "py_float E v =
     (case v of
        PFloat x \<Rightarrow> Inr x
      | PInt n \<Rightarrow> (case float_of_int E n of None \<Rightarrow> Inl OverflowError | Some x \<Rightarrow> Inr x)
      | PStr s \<Rightarrow> (case float_of_str E s of None \<Rightarrow> Inl BuiltinValueError | Some x \<Rightarrow> Inr x)
      | PNone \<Rightarrow> Inl TypeError
      | PList xs \<Rightarrow> Inl TypeError)"

text \<open>\<open>dtype(value)\<close> for the three element types the code uses.\<close>

definition apply_dtype :: "'f env \<Rightarrow> dtype \<Rightarrow> 'f pyval \<Rightarrow> error + 'f pyval" where
  "apply_dtype E d v =
     (case d of
        DStr \<Rightarrow> Inr (PStr (py_str E v))
      | DInt \<Rightarrow> (case py_int E v of Inl e \<Rightarrow> Inl e | Inr n \<Rightarrow> Inr (PInt n))
      | DFloat \<Rightarrow> (case py_float E v of Inl e \<Rightarrow> Inl e | Inr x \<Rightarrow> Inr (PFloat x)))"

text \<open>\<open>getattr(val, '__len__', None) is None\<close> is the negation of this.\<close>

fun has_len :: "'f pyval \<Rightarrow> bool" where
  "has_len (PStr s) = True"
| "has_len (PList xs) = True"
| "has_len v = False"

text \<open>\<open>val[0]\<close> on a value that has a length: \<open>IndexError\<close> when it is empty.\<close>

fun first_item :: "'f pyval \<Rightarrow> error + 'f pyval" where
  "first_item (PStr []) = Inl IndexError"
| "first_item (PStr (c # cs)) = Inr (PStr [c])"
| "first_item (PList []) = Inl IndexError"
| "first_item (PList (x # xs)) = Inr x"
| "first_item v = Inl TypeError"

text \<open>The position an integer index of a list denotes; \<open>-1\<close> is the last item.\<close>

definition norm_index :: "'a list \<Rightarrow> int \<Rightarrow> error + nat" where
  "norm_index xs i =
     (if i < 0
      then (if - i \<le> int (length xs) then Inr (nat (int (length xs) + i)) else Inl IndexError)
      else (if i < int (length xs) then Inr (nat i) else Inl IndexError))"

definition list_setitem :: "'a list \<Rightarrow> int \<Rightarrow> 'a \<Rightarrow> error + 'a list" where
  "list_setitem xs i v = (case norm_index xs i of Inl e \<Rightarrow> Inl e | Inr j \<Rightarrow> Inr (xs[j := v]))"

definition list_delitem :: "'a list \<Rightarrow> int \<Rightarrow> error + 'a list" where
  "list_delitem xs i =
     (case norm_index xs i of Inl e \<Rightarrow> Inl e | Inr j \<Rightarrow> Inr (take j xs @ drop (Suc j) xs))"

text \<open>\<open>list.insert\<close> never raises: the index is clamped to the ends.\<close>

definition list_insert :: "'a list \<Rightarrow> int \<Rightarrow> 'a \<Rightarrow> 'a list" where
  "list_insert xs i v =
     (let n = int (length xs); j = (if i < 0 then max 0 (n + i) else min n i)
      in take (nat j) xs @ v # drop (nat j) xs)"

text \<open>
  A Python \<open>dict\<close> keeps insertion order and assigning to a key it already has
  replaces the value in place: an association list with this update.
\<close>

fun dict_set :: "('k \<times> 'v) list \<Rightarrow> 'k \<Rightarrow> 'v \<Rightarrow> ('k \<times> 'v) list" where
  "dict_set [] k v = [(k, v)]"
| "dict_set ((k', v') # kvs) k v = (if k' = k then (k, v) # kvs else (k', v') # dict_set kvs k v)"

fun dict_update :: "('k \<times> 'v) list \<Rightarrow> ('k \<times> 'v) list \<Rightarrow> ('k \<times> 'v) list" where
  "dict_update d [] = d"
| "dict_update d ((k, v) # kvs) = dict_update (dict_set d k v) kvs"

definition dict_del :: "('k \<times> 'v) list \<Rightarrow> 'k \<Rightarrow> ('k \<times> 'v) list" where
  "dict_del d k = filter (\<lambda>kv. fst kv \<noteq> k) d"

text \<open>\<open>str.split("\n")\<close>: always at least one piece.\<close>

fun split_nl :: "string \<Rightarrow> string list" where
  "split_nl [] = [[]]"
| "split_nl (c # cs) =
     (if c = CHR 0x0A then [] # split_nl cs
      else (case split_nl cs of [] \<Rightarrow> [[c]] | l # ls \<Rightarrow> (c # l) # ls))"

section \<open>FlagChangeList and TypedFlagChangeList\<close>

text \<open>
  One record for both classes: \<open>l_dtype\<close> is \<open>None\<close> for a plain
  \<open>FlagChangeList\<close> and the element type for a \<open>TypedFlagChangeList\<close>.
  The keys of \<open>__setitem__\<close>, \<open>__delitem__\<close> and \<open>insert\<close> are integer
  indices; slices are not modelled.
\<close>

record 'f FlagChangeList =
  l_data :: "'f pyval list"
  l_changed :: bool
  l_dtype :: "dtype option"

definition convert_type :: "'f env \<Rightarrow> dtype option \<Rightarrow> 'f pyval \<Rightarrow> error + 'f pyval" where
  "convert_type E d v = (case d of None \<Rightarrow> Inr v | Some t \<Rightarrow> apply_dtype E t v)"

fun convert_items :: "'f env \<Rightarrow> dtype \<Rightarrow> 'f pyval list \<Rightarrow> error + 'f pyval list" where
  "convert_items E d [] = Inr []"
| "convert_items E d (v # vs) =
     (case apply_dtype E d v of
        Inl e \<Rightarrow> Inl e
      | Inr t \<Rightarrow> (case convert_items E d vs of Inl e \<Rightarrow> Inl e | Inr ts \<Rightarrow> Inr (t # ts)))"

text \<open>
  \<open>TypedFlagChangeList.__init__\<close>: a value without a length, and a string, is wrapped
  into a one-element list; then every item is converted, and the flag starts false.
\<close>

definition TypedFlagChangeList_init :: "'f env \<Rightarrow> 'f pyval \<Rightarrow> dtype \<Rightarrow> error + 'f FlagChangeList" where
  "TypedFlagChangeList_init E d t =
     (let items = (case d of PList xs \<Rightarrow> xs | _ \<Rightarrow> [d])
      in case convert_items E t items of
           Inl e \<Rightarrow> Inl e
         | Inr typed_data \<Rightarrow> Inr \<lparr>l_data = typed_data, l_changed = False, l_dtype = Some t\<rparr>)"

definition FlagChangeList_setitem ::
  "'f env \<Rightarrow> 'f FlagChangeList \<Rightarrow> int \<Rightarrow> 'f pyval \<Rightarrow> error + 'f FlagChangeList" where
  "FlagChangeList_setitem E l key v =
     (case convert_type E (l_dtype l) v of
        Inl e \<Rightarrow> Inl e
      | Inr typed_value \<Rightarrow>
          (case list_setitem (l_data l) key typed_value of
             Inl e \<Rightarrow> Inl e
           | Inr xs \<Rightarrow> Inr (l\<lparr>l_data := xs, l_changed := True\<rparr>)))"

definition FlagChangeList_delitem :: "'f FlagChangeList \<Rightarrow> int \<Rightarrow> error + 'f FlagChangeList" where
  "FlagChangeList_delitem l key =
     (case list_delitem (l_data l) key of
        Inl e \<Rightarrow> Inl e
      | Inr xs \<Rightarrow> Inr (l\<lparr>l_data := xs, l_changed := True\<rparr>))"

definition FlagChangeList_insert ::
  "'f env \<Rightarrow> 'f FlagChangeList \<Rightarrow> int \<Rightarrow> 'f pyval \<Rightarrow> error + 'f FlagChangeList" where
  "FlagChangeList_insert E l key v =
     (case convert_type E (l_dtype l) v of
        Inl e \<Rightarrow> Inl e
      | Inr typed_value \<Rightarrow> Inr (l\<lparr>l_data := list_insert (l_data l) key typed_value, l_changed := True\<rparr>))"

section \<open>The file system\<close>

text \<open>
  Files and directories are kept by absolute, normalised path; a file holds text as
  text-mode I/O sees it. The root directory always exists. The codec and the newline
  translation of text mode, permissions, links and special files are outside the model.
\<close>

datatype node = File string | Dir

type_synonym fs = "string \<Rightarrow> node option"

definition node_at :: "fs \<Rightarrow> string \<Rightarrow> node option" where
  "node_at F p = (if p = ''/'' then Some Dir else F p)"

text \<open>
  The directories a path leads through, outermost first: \<open>/a\<close> and \<open>/a/b\<close> for
  \<open>/a/b/c\<close>. The first argument is the part of the path already passed, reversed.
\<close>

fun dirs_above :: "string \<Rightarrow> string \<Rightarrow> string list" where
  "dirs_above acc [] = []"
| "dirs_above acc (c # cs) =
     (if c = CHR ''/'' \<and> acc \<noteq> [] then rev acc # dirs_above (c # acc) cs
      else dirs_above (c # acc) cs)"

definition ancestors :: "string \<Rightarrow> string list" where
  "ancestors p = dirs_above [] p"

text \<open>
  Resolving the directories of a path, as every system call on the path does first: a
  missing one is \<open>FileNotFoundError\<close>, a regular file in its place
  \<open>NotADirectoryError\<close>; \<open>None\<close> when all of them are directories.
\<close>

fun check_dirs :: "fs \<Rightarrow> string list \<Rightarrow> error option" where
  "check_dirs F [] = None"
| "check_dirs F (d # ds) =
     (case node_at F d of
        None \<Rightarrow> Some FileNotFoundError
      | Some (File c) \<Rightarrow> Some NotADirectoryError
      | Some Dir \<Rightarrow> check_dirs F ds)"

text \<open>\<open>os.stat(p)\<close>, as far as the kind of the node goes.\<close>

definition os_stat :: "fs \<Rightarrow> string \<Rightarrow> error + node" where
  "os_stat F p =
     (case check_dirs F (ancestors p) of
        Some e \<Rightarrow> Inl e
      | None \<Rightarrow> (case node_at F p of None \<Rightarrow> Inl FileNotFoundError | Some n \<Rightarrow> Inr n))"

text \<open>\<open>os.path.isfile\<close>, \<open>os.path.isdir\<close> and \<open>os.path.exists\<close> are false when \<open>os.stat\<close> fails.\<close>

definition isfile :: "fs \<Rightarrow> string \<Rightarrow> bool" where
  "isfile F p = (case os_stat F p of Inr (File c) \<Rightarrow> True | _ \<Rightarrow> False)"

definition isdir :: "fs \<Rightarrow> string \<Rightarrow> bool" where
  "isdir F p = (os_stat F p = Inr Dir)"

definition exists_path :: "fs \<Rightarrow> string \<Rightarrow> bool" where
  "exists_path F p = (case os_stat F p of Inr n \<Rightarrow> True | Inl e \<Rightarrow> False)"

text \<open>\<open>open(p, "r").read()\<close>\<close>

definition read_text :: "fs \<Rightarrow> string \<Rightarrow> error + string" where
  "read_text F p =
     (case os_stat F p of
        Inl e \<Rightarrow> Inl e
      | Inr Dir \<Rightarrow> Inl IsADirectoryError
      | Inr (File c) \<Rightarrow> Inr c)"

text \<open>
  \<open>open(p, "w").write(s)\<close>: the outcome and the file system afterwards. The file is
  created or replaced when the directories of the path exist and the path itself is not
  a directory.
\<close>

definition write_text :: "fs \<Rightarrow> string \<Rightarrow> string \<Rightarrow> (error + unit) \<times> fs" where
  "write_text F p s =
     (case check_dirs F (ancestors p) of
        Some e \<Rightarrow> (Inl e, F)
      | None \<Rightarrow>
          (case node_at F p of
             Some Dir \<Rightarrow> (Inl IsADirectoryError, F)
           | _ \<Rightarrow> (Inr (), F(p \<mapsto> File s))))"

definition basename :: "string \<Rightarrow> string" where
  "basename p = rev (takeWhile (\<lambda>c. c \<noteq> CHR ''/'') (rev p))"

definition path_join :: "string \<Rightarrow> string \<Rightarrow> string" where
  "path_join a b = (if a \<noteq> [] \<and> last a = CHR ''/'' then a @ b else a @ ''/'' @ b)"

text \<open>
  \<open>shutil.copy2(src, dst)\<close>: a directory as destination receives the file under the
  source's base name; copying an existing file onto itself is \<open>SameFileError\<close> (the
  test needs both paths to exist); then the source is opened and read, then the
  destination opened and written.
\<close>

definition copy2 :: "fs \<Rightarrow> string \<Rightarrow> string \<Rightarrow> (error + unit) \<times> fs" where
  "copy2 F src dst =
     (let dst' = (if isdir F dst then path_join dst (basename src) else dst)
      in if dst' = src \<and> exists_path F src then (Inl SameFileError, F)
         else (case read_text F src of
                 Inl e \<Rightarrow> (Inl e, F)
               | Inr c \<Rightarrow> write_text F dst' c))"

section \<open>LineBasedMDConfig\<close>

text \<open>
  What a concrete subclass supplies: the abstract method \<open>_parse_line\<close> (a dict with
  the key and the list of values of the line, empty for a comment; it may raise) and the
  class attributes.
\<close>

type_synonym 'f raw_dict = "(string \<times> 'f pyval) list"

record 'f cls =
  parse_line :: "string \<Rightarrow> error + 'f raw_dict"
  KEY_VALUE_SEPARATOR :: string
  INTER_VALUE_CHAR :: string
  FLOAT_PARAMS :: "string list"
  FLOAT_SINGLETON_PARAMS :: "string list"
  INT_PARAMS :: "string list"
  INT_SINGLETON_PARAMS :: "string list"
  SPECIAL_PARAM_DISPATCH :: "string \<Rightarrow> ('f pyval \<Rightarrow> error + 'f FlagChangeList) option"

text \<open>
  The class attributes as \<open>LineBasedMDConfig\<close> itself declares them; a subclass
  overrides fields of this record.
\<close>

definition LineBasedMDConfig_attrs :: "(string \<Rightarrow> error + 'f raw_dict) \<Rightarrow> 'f cls" where
  "LineBasedMDConfig_attrs pl =
     \<lparr>parse_line = pl,
      KEY_VALUE_SEPARATOR = '' = '',
      INTER_VALUE_CHAR = '' '',
      FLOAT_PARAMS = [],
      FLOAT_SINGLETON_PARAMS = [],
      INT_PARAMS = [],
      INT_SINGLETON_PARAMS = [],
      SPECIAL_PARAM_DISPATCH = (\<lambda>k. None)\<rparr>"

text \<open>
  A value of the table: a \<open>FlagChangeList\<close> object, or the plain Python value that a
  singleton rule returns.
\<close>

datatype 'f entry = Container "'f FlagChangeList" | Scalar "'f pyval"

record 'f store =
  original_file :: string
  config :: "(string \<times> 'f entry) list"
  changed_flag :: bool

definition convert_len1_list_or_singleton :: "'f env \<Rightarrow> 'f pyval \<Rightarrow> dtype \<Rightarrow> error + 'f pyval" where
  "convert_len1_list_or_singleton E val d =
     (if \<not> has_len val then apply_dtype E d val
      else (case first_item val of Inl e \<Rightarrow> Inl e | Inr v0 \<Rightarrow> apply_dtype E d v0))"

type_synonym 'f rule = "'f pyval \<Rightarrow> error + 'f entry"

definition list_rule :: "'f env \<Rightarrow> dtype \<Rightarrow> 'f rule" where
  "list_rule E d = (\<lambda>l. case TypedFlagChangeList_init E l d of Inl e \<Rightarrow> Inl e | Inr c \<Rightarrow> Inr (Container c))"

definition singleton_rule :: "'f env \<Rightarrow> dtype \<Rightarrow> 'f rule" where
  "singleton_rule E d =
     (\<lambda>v. case convert_len1_list_or_singleton E v d of Inl e \<Rightarrow> Inl e | Inr x \<Rightarrow> Inr (Scalar x))"

definition special_rule :: "('f pyval \<Rightarrow> error + 'f FlagChangeList) \<Rightarrow> 'f rule" where
  "special_rule f = (\<lambda>v. case f v of Inl e \<Rightarrow> Inl e | Inr c \<Rightarrow> Inr (Container c))"

text \<open>\<open>type_dispatch.update({param: rule for param in params})\<close>\<close>

definition update_params :: "(string \<Rightarrow> 'f rule) \<Rightarrow> string list \<Rightarrow> 'f rule \<Rightarrow> (string \<Rightarrow> 'f rule)" where
  "update_params t params r = (\<lambda>k. if k \<in> set params then r else t k)"

text \<open>
  \<open>_construct_type_dispatch\<close>: the default rule, then the four updates in the order of
  the source, then the custom rules; a later update wins.
\<close>

definition construct_type_dispatch :: "'f env \<Rightarrow> 'f cls \<Rightarrow> string \<Rightarrow> 'f rule" where
  "construct_type_dispatch E C =
     (let t0 = (\<lambda>k. list_rule E DStr);
          t1 = update_params t0 (FLOAT_PARAMS C) (list_rule E DFloat);
          t2 = update_params t1 (FLOAT_SINGLETON_PARAMS C) (singleton_rule E DFloat);
          t3 = update_params t2 (INT_PARAMS C) (list_rule E DInt);
          t4 = update_params t3 (INT_SINGLETON_PARAMS C) (singleton_rule E DInt)
      in (\<lambda>k. case SPECIAL_PARAM_DISPATCH C k of None \<Rightarrow> t4 k | Some f \<Rightarrow> special_rule f))"

definition getitem :: "'f store \<Rightarrow> string \<Rightarrow> error + 'f entry" where
  "getitem S key = (case map_of (config S) key of None \<Rightarrow> Inl (KeyError key) | Some v \<Rightarrow> Inr v)"

text \<open>
  The mutating methods return the outcome together with the store as the call leaves
  it, also when the call raises.
\<close>

definition setitem :: "'f env \<Rightarrow> 'f cls \<Rightarrow> 'f store \<Rightarrow> string \<Rightarrow> 'f pyval \<Rightarrow> (error + unit) \<times> 'f store" where
  "setitem E C S key v =
     (case construct_type_dispatch E C key v of
        Inl e \<Rightarrow> (Inl e, S)
      | Inr typed_value \<Rightarrow>
          (Inr (), S\<lparr>config := dict_set (config S) key typed_value, changed_flag := True\<rparr>))"

definition delitem :: "'f store \<Rightarrow> string \<Rightarrow> (error + unit) \<times> 'f store" where
  "delitem S key =
     (case map_of (config S) key of
        None \<Rightarrow> (Inl (KeyError key), S)
      | Some v \<Rightarrow> (Inr (), S\<lparr>config := dict_del (config S) key, changed_flag := True\<rparr>))"

text \<open>\<open>getattr(v, "changed", False)\<close>\<close>

definition entry_changed :: "'f entry \<Rightarrow> bool" where
  "entry_changed v = (case v of Container l \<Rightarrow> l_changed l | Scalar x \<Rightarrow> False)"

fun py_any :: "bool list \<Rightarrow> bool" where
  "py_any [] = False"
| "py_any (b # bs) = (if b then True else py_any bs)"

definition changed :: "'f store \<Rightarrow> bool" where
  "changed S =
     (let single_vals_changed = map (\<lambda>kv. entry_changed (snd kv)) (config S)
      in changed_flag S \<or> py_any single_vals_changed)"

text \<open>
  Statements on an element of an entry, as in \<open>store[key][i] = v\<close>: the entry is
  looked up and the list object inside the table is mutated in place. A scalar entry is
  a number or text and supports none of them.
\<close>

definition item_update ::
  "'f store \<Rightarrow> string \<Rightarrow> ('f FlagChangeList \<Rightarrow> error + 'f FlagChangeList) \<Rightarrow> (error + unit) \<times> 'f store" where
  "item_update S key f =
     (case getitem S key of
        Inl e \<Rightarrow> (Inl e, S)
      | Inr (Scalar x) \<Rightarrow> (Inl TypeError, S)
      | Inr (Container l) \<Rightarrow>
          (case f l of
             Inl e \<Rightarrow> (Inl e, S)
           | Inr l' \<Rightarrow> (Inr (), S\<lparr>config := dict_set (config S) key (Container l')\<rparr>)))"

definition item_setitem :: "'f env \<Rightarrow> 'f store \<Rightarrow> string \<Rightarrow> int \<Rightarrow> 'f pyval \<Rightarrow> (error + unit) \<times> 'f store" where
  "item_setitem E S key i v = item_update S key (\<lambda>l. FlagChangeList_setitem E l i v)"

definition item_delitem :: "'f store \<Rightarrow> string \<Rightarrow> int \<Rightarrow> (error + unit) \<times> 'f store" where
  "item_delitem S key i = item_update S key (\<lambda>l. FlagChangeList_delitem l i)"

definition item_insert :: "'f env \<Rightarrow> 'f store \<Rightarrow> string \<Rightarrow> int \<Rightarrow> 'f pyval \<Rightarrow> (error + unit) \<times> 'f store" where
  "item_insert E S key i v = item_update S key (\<lambda>l. FlagChangeList_insert E l i v)"

subsection \<open>parse\<close>

definition warning_msg :: "string \<Rightarrow> string" where
  "warning_msg key =
     ''Parsed duplicate configuration option ('' @ key @ ''). Last values encountered take precedence.''"

text \<open>
  The loop over the lines: \<open>parsed\<close> is the raw table so far, \<open>log\<close> the warnings
  logged so far. A line that \<open>_parse_line\<close> rejects ends the loop with its exception.
\<close>

fun accumulate ::
  "'f cls \<Rightarrow> string list \<Rightarrow> 'f raw_dict \<Rightarrow> string list \<Rightarrow> (error + 'f raw_dict) \<times> string list" where
  "accumulate C [] parsed log = (Inr parsed, log)"
| "accumulate C (line # rest) parsed log =
     (case parse_line C line of
        Inl e \<Rightarrow> (Inl e, log)
      | Inr line_parsed \<Rightarrow>
          accumulate C rest (dict_update parsed line_parsed)
            (log @ map warning_msg (filter (\<lambda>key. map_of parsed key \<noteq> None) (map fst line_parsed))))"

text \<open>The dict comprehension that converts the known types, in the table's order.\<close>

fun convert_known_types :: "(string \<Rightarrow> 'f rule) \<Rightarrow> 'f raw_dict \<Rightarrow> error + (string \<times> 'f entry) list" where
  "convert_known_types t [] = Inr []"
| "convert_known_types t ((key, v) # kvs) =
     (case t key v of
        Inl e \<Rightarrow> Inl e
      | Inr x \<Rightarrow> (case convert_known_types t kvs of Inl e \<Rightarrow> Inl e | Inr xs \<Rightarrow> Inr ((key, x) # xs)))"

definition parse :: "'f env \<Rightarrow> 'f cls \<Rightarrow> fs \<Rightarrow> 'f store \<Rightarrow> (error + unit) \<times> string list \<times> 'f store" where
  "parse E C F S =
     (case read_text F (original_file S) of
        Inl e \<Rightarrow> (Inl e, [], S)
      | Inr file_content \<Rightarrow>
          (case accumulate C (split_nl file_content) [] [] of
             (Inl e, log) \<Rightarrow> (Inl e, log, S)
           | (Inr parsed, log) \<Rightarrow>
               (case convert_known_types (construct_type_dispatch E C) parsed of
                  Inl e \<Rightarrow> (Inl e, log, S)
                | Inr cfg \<Rightarrow> (Inr (), log, S\<lparr>config := cfg, changed_flag := False\<rparr>))))"

text \<open>The setter of \<open>original_file\<close>.\<close>

definition set_original_file ::
  "'f env \<Rightarrow> 'f cls \<Rightarrow> fs \<Rightarrow> 'f store \<Rightarrow> string \<Rightarrow> (error + unit) \<times> string list \<times> 'f store" where
  "set_original_file E C F S v =
     (let v' = abspath E v
      in if \<not> isfile F v' then (Inl (ValueError (''Can not access the file '' @ v')), [], S)
         else parse E C F (S\<lparr>original_file := v'\<rparr>))"

text \<open>
  \<open>__init__\<close>: an empty table, the flag false, then the setter. When the setter raises
  there is no object.
\<close>

definition LineBasedMDConfig_init ::
  "'f env \<Rightarrow> 'f cls \<Rightarrow> fs \<Rightarrow> string \<Rightarrow> (error + 'f store) \<times> string list" where
  "LineBasedMDConfig_init E C F p =
     (case set_original_file E C F \<lparr>original_file = [], config = [], changed_flag = False\<rparr> p of
        (Inl e, log, S) \<Rightarrow> (Inl e, log)
      | (Inr u, log, S) \<Rightarrow> (Inr S, log))"

subsection \<open>write (named \<open>write_config\<close> here)\<close>

text \<open>What \<open>len(value)\<close> and the iteration over \<open>value\<close> see; \<open>None\<close> when \<open>len\<close> raises \<open>TypeError\<close>.\<close>

definition entry_items :: "'f entry \<Rightarrow> 'f pyval list option" where
  "entry_items value =
     (case value of
        Container l \<Rightarrow> Some (l_data l)
      | Scalar (PStr s) \<Rightarrow> Some (map (\<lambda>c. PStr [c]) s)
      | Scalar (PList xs) \<Rightarrow> Some xs
      | Scalar x \<Rightarrow> None)"

definition entry_line :: "'f env \<Rightarrow> 'f cls \<Rightarrow> string \<times> 'f entry \<Rightarrow> string" where
  "entry_line E C kv =
     (let line = fst kv @ KEY_VALUE_SEPARATOR C
      in case entry_items (snd kv) of
           Some vs \<Rightarrow> (if length vs > 0 then line @ py_join (INTER_VALUE_CHAR C) (map (py_str E) vs) else line)
         | None \<Rightarrow> (case snd kv of Scalar x \<Rightarrow> line @ py_str E x | Container l \<Rightarrow> line))"

definition write_config ::
  "'f env \<Rightarrow> 'f cls \<Rightarrow> 'f store \<Rightarrow> string \<Rightarrow> bool \<Rightarrow> fs \<Rightarrow> (error + unit) \<times> 'f store \<times> fs" where
  "write_config E C S outfile overwrite F =
     (let outfile' = abspath E outfile
      in if exists_path F outfile' \<and> \<not> overwrite
         then (Inl (ValueError (''overwrite=False and file exists ('' @ outfile' @ '').'')), S, F)
         else if \<not> changed S
         then (case copy2 F (original_file S) outfile' of (r, F') \<Rightarrow> (r, S, F'))
         else (let lines = map (entry_line E C) (config S);
                   out_str = py_join [CHR 0x0A] lines
               in case write_text F outfile' out_str of (r, F') \<Rightarrow> (r, S, F')))"

section \<open>Notions the properties are stated with\<close>

text \<open>
  The keys that \<open>_construct_type_dispatch\<close> gives a singleton rule of element type
  \<open>d\<close>: no custom rule, and declared in the int singleton list, or in the float
  singleton list and in neither int list (the later updates would replace the rule).
\<close>

definition resolves_singleton :: "'f cls \<Rightarrow> string \<Rightarrow> dtype \<Rightarrow> bool" where
  "resolves_singleton C key d \<longleftrightarrow>
     SPECIAL_PARAM_DISPATCH C key = None \<and>
     (key \<in> set (INT_SINGLETON_PARAMS C) \<and> d = DInt
      \<or> key \<in> set (FLOAT_SINGLETON_PARAMS C) \<and> key \<notin> set (INT_PARAMS C)
          \<and> key \<notin> set (INT_SINGLETON_PARAMS C) \<and> d = DFloat)"

text \<open>
  The words of the duplicate-key policy, to compare the loop of \<open>parse\<close> with: the
  keys a line produces, the key/value pairs of all lines in file order, the value of the
  last occurrence of a key, and a key that more than one line produces.
\<close>

definition line_items :: "'f cls \<Rightarrow> string \<Rightarrow> 'f raw_dict" where
  "line_items C line = (case parse_line C line of Inl e \<Rightarrow> [] | Inr d \<Rightarrow> d)"

definition spec_last_value :: "'f cls \<Rightarrow> string list \<Rightarrow> string \<Rightarrow> 'f pyval option" where
  "spec_last_value C lines key = map_of (rev (concat (map (line_items C) lines))) key"

definition spec_duplicated :: "'f cls \<Rightarrow> string list \<Rightarrow> string \<Rightarrow> bool" where
  "spec_duplicated C lines key \<longleftrightarrow>
     (\<exists>j < length lines. \<exists>i < j.
        key \<in> fst ` set (line_items C (lines ! i)) \<and> key \<in> fst ` set (line_items C (lines ! j)))"

text \<open>
  The custom rules construct their list: what they return has not been changed yet.
\<close>

definition fresh_rules :: "'f cls \<Rightarrow> bool" where
  "fresh_rules C \<longleftrightarrow>
     (\<forall>k f v l. SPECIAL_PARAM_DISPATCH C k = Some f \<longrightarrow> f v = Inr l \<longrightarrow> \<not> l_changed l)"

section \<open>A concrete runtime and a concrete subclass\<close>

text \<open>
  For evaluating the model on concrete inputs: a runtime whose integer literals are
  plain ASCII decimals and whose floats are the integral ones, and a subclass with a
  small \<open>key = v1 v2 ...\<close> grammar in which \<open>;\<close> starts a comment.
\<close>

fun digits_val :: "string \<Rightarrow> nat \<Rightarrow> nat option" where
  "digits_val [] acc = Some acc"
| "digits_val (c # cs) acc =
     (let d = (of_char c :: nat)
      in if 48 \<le> d \<and> d \<le> 57 then digits_val cs (10 * acc + (d - 48)) else None)"

definition decimal_int :: "string \<Rightarrow> int option" where
  "decimal_int s =
     (case s of
        [] \<Rightarrow> None
      | c # cs \<Rightarrow>
          (if c = CHR ''-'' then (if cs = [] then None else map_option (\<lambda>n. - int n) (digits_val cs 0))
           else map_option int (digits_val s 0)))"

definition example_env :: "int env" where
  "example_env =
     \<lparr>abspath = (\<lambda>p. p),
      int_of_str = decimal_int,
      float_of_str = decimal_int,
      float_of_int = Some,
      int_of_float = Inr,
      str_of_float = (\<lambda>x. str_of_int x @ ''.0''),
      repr_str = (\<lambda>s. [CHR 0x27] @ s @ [CHR 0x27])\<rparr>"

fun split_sp :: "string \<Rightarrow> string list" where
  "split_sp [] = [[]]"
| "split_sp (c # cs) =
     (if c = CHR '' '' then [] # split_sp cs
      else (case split_sp cs of [] \<Rightarrow> [[c]] | w # ws \<Rightarrow> (c # w) # ws))"

definition example_parse_line :: "string \<Rightarrow> error + int raw_dict" where
  "example_parse_line line =
     (case filter (\<lambda>w. w \<noteq> []) (split_sp line) of
        [] \<Rightarrow> Inr []
      | key # rest \<Rightarrow>
          (if hd key = CHR '';'' then Inr []
           else (case rest of
                   [] \<Rightarrow> Inr [(key, PList [])]
                 | eq # vals \<Rightarrow>
                     (if eq = ''='' then Inr [(key, PList (map PStr vals))]
                      else Inl (LineError line)))))"

definition example_define_rule :: "int pyval \<Rightarrow> error + int FlagChangeList" where
  "example_define_rule v =
     (case v of
        PList xs \<Rightarrow> Inr \<lparr>l_data = xs, l_changed = False, l_dtype = None\<rparr>
      | _ \<Rightarrow> Inl TypeError)"

definition example_cls :: "int cls" where
  "example_cls =
     (LineBasedMDConfig_attrs example_parse_line)
       \<lparr>FLOAT_PARAMS := [''ref-t''],
        FLOAT_SINGLETON_PARAMS := [''dt''],
        INT_PARAMS := [''x''],
        INT_SINGLETON_PARAMS := [''nsteps''],
        SPECIAL_PARAM_DISPATCH := [''define'' \<mapsto> example_define_rule]\<rparr>"

definition example_store :: "int store" where
  "example_store =
     \<lparr>original_file = ''/md/in.mdp'',
      config = [(''nsteps'', Scalar (PInt 5)),
                (''x'', Container \<lparr>l_data = [PInt 1, PInt 2], l_changed = False, l_dtype = Some DInt\<rparr>)],
      changed_flag = False\<rparr>"

definition example_fs :: fs where
  "example_fs = [''/md'' \<mapsto> Dir, ''/md/in.mdp'' \<mapsto> File ''nsteps = 5\<newline>x = 1 2'']"

definition example_store_x0 :: "int store" where
  "example_store_x0 =
     \<lparr>original_file = ''/md/in.mdp'',
      config = [(''nsteps'', Scalar (PInt 5)),
                (''x'', Container \<lparr>l_data = [PInt 7, PInt 2], l_changed = True, l_dtype = Some DInt\<rparr>)],
      changed_flag = False\<rparr>"

definition example_store_nsteps :: "int \<Rightarrow> int store" where
  "example_store_nsteps n =
     \<lparr>original_file = ''/md/in.mdp'',
      config = [(''nsteps'', Scalar (PInt n)),
                (''x'', Container \<lparr>l_data = [PInt 1, PInt 2], l_changed = False, l_dtype = Some DInt\<rparr>)],
      changed_flag = True\<rparr>"

definition example_fs_empty_value :: fs where
  "example_fs_empty_value = [''/md'' \<mapsto> Dir, ''/md/in.mdp'' \<mapsto> File ''x = 1 2\<newline>nsteps'']"

definition example_fs_duplicate :: fs where
  "example_fs_duplicate = [''/md'' \<mapsto> Dir, ''/md/in.mdp'' \<mapsto> File ''x = 1\<newline>x = 2'']"

definition example_store_x2 :: "int store" where
  "example_store_x2 =
     \<lparr>original_file = ''/md/in.mdp'',
      config = [(''x'', Container \<lparr>l_data = [PInt 2], l_changed = False, l_dtype = Some DInt\<rparr>)],
      changed_flag = False\<rparr>"

definition example_fs_two :: fs where
  "example_fs_two =
     [''/md'' \<mapsto> Dir,
      ''/md/in.mdp'' \<mapsto> File ''nsteps = 5\<newline>x = 1 2'',
      ''/md/other.mdp'' \<mapsto> File ''; run\<newline>dt = 2\<newline>define = -DFLEX'']"

definition example_store_other :: "int store" where
  "example_store_other =
     \<lparr>original_file = ''/md/other.mdp'',
      config = [(''dt'', Scalar (PFloat 2)),
                (''define'', Container \<lparr>l_data = [PStr ''-DFLEX''], l_changed = False, l_dtype = None\<rparr>)],
      changed_flag = False\<rparr>"

definition example_fs_copied :: fs where
  "example_fs_copied = example_fs(''/md/out.mdp'' \<mapsto> File ''nsteps = 5\<newline>x = 1 2'')"

definition example_fs_written :: fs where
  "example_fs_written = example_fs(''/md/out.mdp'' \<mapsto> File ''nsteps = 5\<newline>x = 7 2'')"

definition example_fs_overwritten :: fs where
  "example_fs_overwritten =
     example_fs_two(''/md/in.mdp'' \<mapsto> File ''; run\<newline>dt = 2\<newline>define = -DFLEX'')"

definition example_fs_stale_copy :: fs where
  "example_fs_stale_copy =
     example_fs_overwritten(''/md/out.mdp'' \<mapsto> File ''; run\<newline>dt = 2\<newline>define = -DFLEX'')"

definition example_fs_rejected :: fs where
  "example_fs_rejected =
     [''/md'' \<mapsto> Dir,
      ''/md/in.mdp'' \<mapsto> File ''nsteps = 5\<newline>x = 1 2'',
      ''/md/bad.mdp'' \<mapsto> File ''nsteps = a'']"

text \<open>
  A custom rule that builds its list and then puts a default item in front, and the
  subclass with this rule for \<open>define\<close>.
\<close>

definition example_dirty_rule :: "int pyval \<Rightarrow> error + int FlagChangeList" where
  "example_dirty_rule v =
     (case v of
        PList xs \<Rightarrow>
          FlagChangeList_insert example_env \<lparr>l_data = xs, l_changed = False, l_dtype = None\<rparr> 0
            (PStr ''-DPOSRES'')
      | _ \<Rightarrow> Inl TypeError)"

definition example_cls_dirty :: "int cls" where
  "example_cls_dirty = example_cls\<lparr>SPECIAL_PARAM_DISPATCH := [''define'' \<mapsto> example_dirty_rule]\<rparr>"

definition example_store_dirty :: "int store" where
  "example_store_dirty =
     \<lparr>original_file = ''/md/other.mdp'',
      config = [(''dt'', Scalar (PFloat 2)),
                (''define'', Container \<lparr>l_data = [PStr ''-DPOSRES'', PStr ''-DFLEX''],
                                          l_changed = True, l_dtype = None\<rparr>)],
      changed_flag = False\<rparr>"

section \<open>Properties\<close>

lemmas example_defs =
  example_cls_def example_env_def LineBasedMDConfig_attrs_def example_parse_line_def decimal_int_def

lemmas fs_defs =
  isfile_def isdir_def exists_path_def read_text_def write_text_def os_stat_def ancestors_def
  node_at_def

lemmas dispatch_defs =
  construct_type_dispatch_def update_params_def singleton_rule_def list_rule_def special_rule_def
  convert_len1_list_or_singleton_def TypedFlagChangeList_init_def apply_dtype_def py_int_def
  py_float_def py_str_def

subsection \<open>Failed assignment\<close>

text \<open>
  C8. When the coercion rule of the key raises on the value, \<open>store[key] = value\<close>
  raises that exception and leaves the store as it was: the table, hence the prior entry
  of the key, and the store-level flag.
\<close>

theorem setitem_failure_leaves_store:
  assumes "construct_type_dispatch E C key v = Inl e"
  shows "setitem E C S key v = (Inl e, S)"
  using assms by (simp add: setitem_def)

theorem setitem_failure_leaves_store_witness:
  "construct_type_dispatch example_env example_cls ''nsteps'' (PStr ''abc'') = Inl BuiltinValueError
   \<and> setitem example_env example_cls example_store ''nsteps'' (PStr ''abc'') = (Inl BuiltinValueError, example_store)"
proof -
  have h: "construct_type_dispatch example_env example_cls ''nsteps'' (PStr ''abc'') = Inl BuiltinValueError"
    by (simp add: dispatch_defs example_defs)
  show ?thesis using h setitem_failure_leaves_store [OF h, of example_store] by simp
qed

subsection \<open>Writing\<close>

text \<open>
  C9. \<open>write\<close> never mutates the store: whatever the outcome (the target exists,
  the copy, the serialisation, a failure of the file system), the store after the call
  is the store before it, with its table, every entry's flag, the store-level flag and
  \<open>original_file\<close>. So a modified store is still changed after it was written out.
\<close>

theorem write_never_mutates_store:
  "fst (snd (write_config E C S outfile overwrite F)) = S
   \<and> changed (fst (snd (write_config E C S outfile overwrite F))) = changed S"
  by (simp add: write_config_def Let_def split: prod.splits)

text \<open>
  C7. When the target exists and \<open>overwrite\<close> is false, \<open>write\<close> raises (in the
  code a \<open>ValueError\<close> with the message below: the error the specification calls
  FileExistsError) and the file system, hence the content of the target, is unchanged.
\<close>

theorem write_existing_target_fails:
  assumes "exists_path F (abspath E outfile)"
  shows "write_config E C S outfile False F =
           (Inl (ValueError (''overwrite=False and file exists ('' @ abspath E outfile @ '').'')), S, F)"
  using assms by (simp add: write_config_def)

theorem write_existing_target_fails_witness:
  "exists_path example_fs (abspath example_env ''/md/in.mdp'')
   \<and> write_config example_env example_cls example_store ''/md/in.mdp'' False example_fs =
       (Inl (ValueError ''overwrite=False and file exists (/md/in.mdp).''), example_store, example_fs)"
proof -
  have h: "exists_path example_fs (abspath example_env ''/md/in.mdp'')"
    by (simp add: fs_defs example_fs_def example_env_def)
  show ?thesis
    using h write_existing_target_fails [OF h, of example_cls example_store]
    by (simp add: example_env_def)
qed

subsection \<open>The changed property\<close>

lemma py_any_iff: "py_any bs \<longleftrightarrow> True \<in> set bs"
  by (induction bs) auto

lemma changed_iff: "changed S \<longleftrightarrow> changed_flag S \<or> (\<exists>kv \<in> set (config S). entry_changed (snd kv))"
  by (auto simp: changed_def py_any_iff)

lemma map_of_dict_set: "map_of (dict_set d k v) = (map_of d)(k \<mapsto> v)"
  by (induction d k v rule: dict_set.induct) auto

lemma dict_set_mem: "(k, v) \<in> set (dict_set d k v)"
  by (induction d k v rule: dict_set.induct) auto

lemma item_update_changed:
  assumes "item_update S key f = (Inr (), S')"
    and "\<And>l l'. f l = Inr l' \<Longrightarrow> l_changed l'"
  shows "changed S' \<and> changed_flag S' = changed_flag S"
proof -
  from assms(1) obtain l l' where l: "getitem S key = Inr (Container l)" and f: "f l = Inr l'"
    and S': "S' = S\<lparr>config := dict_set (config S) key (Container l')\<rparr>"
    by (auto simp: item_update_def split: sum.splits entry.splits)
  have "l_changed l'" using assms(2) f by blast
  moreover have "(key, Container l') \<in> set (config S')" by (simp add: S' dict_set_mem)
  ultimately have "\<exists>kv \<in> set (config S'). entry_changed (snd kv)"
    by (force simp: entry_changed_def)
  then show ?thesis by (simp add: changed_iff S')
qed

lemma setitem_sets_flag: "FlagChangeList_setitem E l i v = Inr l' \<Longrightarrow> l_changed l'"
  by (auto simp: FlagChangeList_setitem_def split: sum.splits)

lemma delitem_sets_flag: "FlagChangeList_delitem l i = Inr l' \<Longrightarrow> l_changed l'"
  by (auto simp: FlagChangeList_delitem_def split: sum.splits)

lemma insert_sets_flag: "FlagChangeList_insert E l i v = Inr l' \<Longrightarrow> l_changed l'"
  by (auto simp: FlagChangeList_insert_def split: sum.splits)

text \<open>
  C2. The property \<open>changed\<close> of a store is true exactly when the store-level flag is
  true or the flag of some entry is. A successful assignment to, deletion of or insertion
  of an element of an entry's list makes \<open>changed\<close> true, while the store-level flag
  stays as it was: the entry itself was not reassigned.
\<close>

theorem changed_property_and_dirty_propagation:
  "(changed S \<longleftrightarrow> changed_flag S \<or> (\<exists>kv \<in> set (config S). entry_changed (snd kv)))
   \<and> (item_setitem E S key i v = (Inr (), S') \<longrightarrow> changed S' \<and> changed_flag S' = changed_flag S)
   \<and> (item_delitem S key i = (Inr (), S') \<longrightarrow> changed S' \<and> changed_flag S' = changed_flag S)
   \<and> (item_insert E S key i v = (Inr (), S') \<longrightarrow> changed S' \<and> changed_flag S' = changed_flag S)"
proof (intro conjI impI)
  show "changed S \<longleftrightarrow> changed_flag S \<or> (\<exists>kv \<in> set (config S). entry_changed (snd kv))"
    by (rule changed_iff)
next
  assume "item_setitem E S key i v = (Inr (), S')"
  then have "changed S' \<and> changed_flag S' = changed_flag S"
    unfolding item_setitem_def by (rule item_update_changed) (rule setitem_sets_flag)
  then show "changed S'" "changed_flag S' = changed_flag S" by simp_all
next
  assume "item_delitem S key i = (Inr (), S')"
  then have "changed S' \<and> changed_flag S' = changed_flag S"
    unfolding item_delitem_def by (rule item_update_changed) (rule delitem_sets_flag)
  then show "changed S'" "changed_flag S' = changed_flag S" by simp_all
next
  assume "item_insert E S key i v = (Inr (), S')"
  then have "changed S' \<and> changed_flag S' = changed_flag S"
    unfolding item_insert_def by (rule item_update_changed) (rule insert_sets_flag)
  then show "changed S'" "changed_flag S' = changed_flag S" by simp_all
qed

lemmas item_defs = item_setitem_def item_update_def getitem_def FlagChangeList_setitem_def
  convert_type_def list_setitem_def norm_index_def

theorem changed_property_and_dirty_propagation_witness:
  "\<not> changed example_store
   \<and> item_setitem example_env example_store ''x'' 0 (PStr ''7'') = (Inr (), example_store_x0)
   \<and> changed example_store_x0 \<and> \<not> changed_flag example_store_x0"
proof -
  have h: "item_setitem example_env example_store ''x'' 0 (PStr ''7'') = (Inr (), example_store_x0)"
    by (simp add: item_defs example_store_def example_store_x0_def apply_dtype_def py_int_def
        example_env_def decimal_int_def)
  have n: "\<not> changed example_store"
    by (simp add: changed_def example_store_def entry_changed_def)
  have f: "\<not> changed_flag example_store_x0" by (simp add: example_store_x0_def)
  show ?thesis
    using h n f changed_property_and_dirty_propagation
      [of example_store example_env "''x''" 0 "PStr ''7''" example_store_x0]
    by blast
qed

subsection \<open>Singleton rules\<close>

lemma dispatch_int_singleton:
  "SPECIAL_PARAM_DISPATCH C key = None \<Longrightarrow> key \<in> set (INT_SINGLETON_PARAMS C)
   \<Longrightarrow> construct_type_dispatch E C key = singleton_rule E DInt"
  by (simp add: construct_type_dispatch_def update_params_def)

lemma dispatch_float_singleton:
  "SPECIAL_PARAM_DISPATCH C key = None \<Longrightarrow> key \<in> set (FLOAT_SINGLETON_PARAMS C)
   \<Longrightarrow> key \<notin> set (INT_PARAMS C) \<Longrightarrow> key \<notin> set (INT_SINGLETON_PARAMS C)
   \<Longrightarrow> construct_type_dispatch E C key = singleton_rule E DFloat"
  by (simp add: construct_type_dispatch_def update_params_def)

lemma resolves_singleton_rule:
  "resolves_singleton C key d \<Longrightarrow> construct_type_dispatch E C key = singleton_rule E d"
  unfolding resolves_singleton_def
  using dispatch_int_singleton dispatch_float_singleton by blast

lemma example_nsteps_singleton: "resolves_singleton example_cls ''nsteps'' DInt"
  by (simp add: resolves_singleton_def example_defs)

lemma resolves_singleton_dtype: "resolves_singleton C key d \<Longrightarrow> d = DInt \<or> d = DFloat"
  by (auto simp: resolves_singleton_def)

lemma apply_dtype_typed:
  "apply_dtype E d v = Inr x \<Longrightarrow> (d = DInt \<longrightarrow> (\<exists>n. x = PInt n)) \<and> (d = DFloat \<longrightarrow> (\<exists>y. x = PFloat y))"
  by (cases d) (auto simp: apply_dtype_def split: sum.splits)

lemma singleton_rule_typed:
  "singleton_rule E d v = Inr en \<Longrightarrow>
     \<exists>x. en = Scalar x \<and> (d = DInt \<longrightarrow> (\<exists>n. x = PInt n)) \<and> (d = DFloat \<longrightarrow> (\<exists>y. x = PFloat y))"
  by (auto simp: singleton_rule_def convert_len1_list_or_singleton_def
      split: sum.splits if_splits dest: apply_dtype_typed)

lemma singleton_rule_len1: "singleton_rule E d (PList [v]) =
   (case apply_dtype E d v of Inl e \<Rightarrow> Inl e | Inr x \<Rightarrow> Inr (Scalar x))"
  by (simp add: singleton_rule_def convert_len1_list_or_singleton_def)

lemma singleton_rule_bare: "\<not> has_len v \<Longrightarrow> singleton_rule E d v = singleton_rule E d (PList [v])"
  by (simp add: singleton_rule_def convert_len1_list_or_singleton_def)

lemma singleton_rule_multi: "singleton_rule E d (PList (v # vs)) = singleton_rule E d (PList [v])"
  by (simp add: singleton_rule_def convert_len1_list_or_singleton_def)

lemma singleton_rule_char: "singleton_rule E d (PStr [c]) = singleton_rule E d (PList [PStr [c]])"
  by (simp add: singleton_rule_def convert_len1_list_or_singleton_def)

lemma getitem_after_set:
  "getitem (S\<lparr>config := dict_set (config S) key en, changed_flag := b\<rparr>) key = Inr en"
  by (simp add: getitem_def map_of_dict_set)

text \<open>
  C3, as the claim states it, fails: assigning the two-element list \<open>[7, 8]\<close> to the
  int singleton key \<open>nsteps\<close> does not raise; it stores \<open>7\<close>.
\<close>

theorem singleton_multi_element_counterexample:
  "''nsteps'' \<in> set (INT_SINGLETON_PARAMS example_cls)
   \<and> setitem example_env example_cls example_store ''nsteps'' (PList [PInt 7, PInt 8])
       = (Inr (), example_store_nsteps 7)"
  by (simp add: setitem_def dispatch_defs example_defs example_store_def example_store_nsteps_def)

text \<open>
  C3, amended. For a key with a singleton rule of element type \<open>d\<close>: an assignment
  that succeeds stores a single scalar of that type, never a list; the one-element list
  \<open>[v]\<close> stores \<open>d(v)\<close> when \<open>v\<close> converts, a value without a length is treated
  as the one-element list of it, and so is a one-character string; a list of two or
  more elements is treated as the list of its first element, without any error for the
  others.
\<close>

theorem singleton_assignment:
  assumes "resolves_singleton C key d"
  shows "(setitem E C S key v = (Inr (), S') \<longrightarrow>
            (\<exists>x. getitem S' key = Inr (Scalar x)
                 \<and> (d = DInt \<longrightarrow> (\<exists>n. x = PInt n)) \<and> (d = DFloat \<longrightarrow> (\<exists>y. x = PFloat y))))
       \<and> (\<forall>x. apply_dtype E d v = Inr x \<longrightarrow>
            setitem E C S key (PList [v]) =
              (Inr (), S\<lparr>config := dict_set (config S) key (Scalar x), changed_flag := True\<rparr>))
       \<and> (\<not> has_len v \<longrightarrow> setitem E C S key v = setitem E C S key (PList [v]))
       \<and> setitem E C S key (PStr [c]) = setitem E C S key (PList [PStr [c]])
       \<and> setitem E C S key (PList (v # w # ws)) = setitem E C S key (PList [v])"
proof -
  note r = resolves_singleton_rule [OF assms, of E]
  have a: "setitem E C S key v = (Inr (), S') \<longrightarrow>
            (\<exists>x. getitem S' key = Inr (Scalar x)
                 \<and> (d = DInt \<longrightarrow> (\<exists>n. x = PInt n)) \<and> (d = DFloat \<longrightarrow> (\<exists>y. x = PFloat y)))"
  proof
    assume s: "setitem E C S key v = (Inr (), S')"
    then obtain en where en: "singleton_rule E d v = Inr en"
      and S': "S' = S\<lparr>config := dict_set (config S) key en, changed_flag := True\<rparr>"
      by (auto simp: setitem_def r split: sum.splits)
    from singleton_rule_typed [OF en] obtain x where "en = Scalar x"
      and "(d = DInt \<longrightarrow> (\<exists>n. x = PInt n)) \<and> (d = DFloat \<longrightarrow> (\<exists>y. x = PFloat y))" by blast
    then show "\<exists>x. getitem S' key = Inr (Scalar x)
                 \<and> (d = DInt \<longrightarrow> (\<exists>n. x = PInt n)) \<and> (d = DFloat \<longrightarrow> (\<exists>y. x = PFloat y))"
      by (auto simp: S' getitem_after_set)
  qed
  have b: "\<forall>x. apply_dtype E d v = Inr x \<longrightarrow>
            setitem E C S key (PList [v]) =
              (Inr (), S\<lparr>config := dict_set (config S) key (Scalar x), changed_flag := True\<rparr>)"
    by (simp add: setitem_def r singleton_rule_len1)
  have c: "\<not> has_len v \<longrightarrow> setitem E C S key v = setitem E C S key (PList [v])"
    by (simp add: setitem_def r singleton_rule_bare)
  have d: "setitem E C S key (PStr [c]) = setitem E C S key (PList [PStr [c]])"
    by (simp add: setitem_def r singleton_rule_char)
  have e: "setitem E C S key (PList (v # w # ws)) = setitem E C S key (PList [v])"
    by (simp add: setitem_def r singleton_rule_multi [of E d v "w # ws"])
  from a b c d e show ?thesis by blast
qed

theorem singleton_assignment_witness:
  "resolves_singleton example_cls ''nsteps'' DInt
   \<and> setitem example_env example_cls example_store ''nsteps'' (PInt 5) = (Inr (), example_store_nsteps 5)
   \<and> setitem example_env example_cls example_store ''nsteps'' (PStr ''5'') = (Inr (), example_store_nsteps 5)
   \<and> setitem example_env example_cls example_store ''nsteps'' (PList [PStr ''5''])
       = (Inr (), example_store_nsteps 5)
   \<and> setitem example_env example_cls example_store ''nsteps'' (PList [PStr ''5'', PStr ''6'', PStr ''7''])
       = (Inr (), example_store_nsteps 5)"
proof -
  have i: "apply_dtype example_env DInt (PInt 5) = Inr (PInt 5)"
    by (simp add: apply_dtype_def py_int_def)
  have s: "apply_dtype example_env DInt (PStr ''5'') = Inr (PInt 5)"
    by (simp add: apply_dtype_def py_int_def example_env_def decimal_int_def)
  have u: "example_store\<lparr>config := dict_set (config example_store) ''nsteps'' (Scalar (PInt 5)),
             changed_flag := True\<rparr> = example_store_nsteps 5"
    by (simp add: example_store_def example_store_nsteps_def)
  have n: "\<not> has_len (PInt 5 :: int pyval)" by simp
  note t1 = singleton_assignment [OF example_nsteps_singleton,
      of example_env example_store "PInt 5" _ _ _ "[]"]
  note t2 = singleton_assignment [OF example_nsteps_singleton,
      of example_env example_store "PStr ''5''" _ "CHR ''5''" "PStr ''6''" "[PStr ''7'']"]
  show ?thesis
    using t1 t2 i s u n example_nsteps_singleton by simp
qed

lemma singleton_rule_empty: "singleton_rule E d (PList []) = Inl IndexError"
  by (simp add: singleton_rule_def convert_len1_list_or_singleton_def)

lemma convert_known_types_fails:
  "(k, v) \<in> set kvs \<Longrightarrow> t k v = Inl e \<Longrightarrow> \<exists>e'. convert_known_types t kvs = Inl e'"
  by (induction kvs) (auto split: sum.splits)

lemma convert_known_types_first_failure:
  "map_of kvs key = Some v \<Longrightarrow> t key v = Inl e
   \<Longrightarrow> \<forall>kv \<in> set (takeWhile (\<lambda>kv. fst kv \<noteq> key) kvs). \<exists>x. t (fst kv) (snd kv) = Inr x
   \<Longrightarrow> convert_known_types t kvs = Inl e"
proof (induction kvs)
  case Nil
  then show ?case by simp
next
  case (Cons p kvs)
  obtain k w where p: "p = (k, w)" by (cases p)
  show ?case
  proof (cases "k = key")
    case True
    with Cons.prems p show ?thesis by simp
  next
    case False
    with Cons.prems p obtain x where x: "t k w = Inr x" by auto
    from False Cons.prems p have "convert_known_types t kvs = Inl e"
      by (intro Cons.IH) auto
    with x p show ?thesis by simp
  qed
qed

text \<open>
  C10. A key with a singleton rule that the raw table maps to the empty list: the rule
  indexes the first element of the empty list and raises \<open>IndexError\<close>, so \<open>parse\<close>
  raises and leaves the store as it was; the exception is this \<open>IndexError\<close> whenever
  the entries before the key in the table convert (the conversions run in table order
  and the first failure ends them). \<open>IndexError\<close> is not the \<open>ValueError\<close> or
  \<open>TypeError\<close> of a value that \<open>int()\<close> or \<open>float()\<close> cannot convert.
\<close>

theorem singleton_empty_value_fails_parse:
  assumes "resolves_singleton C key d"
    and "read_text F (original_file S) = Inr file_content"
    and "accumulate C (split_nl file_content) [] [] = (Inr parsed, log)"
    and "map_of parsed key = Some (PList [])"
  shows "construct_type_dispatch E C key (PList []) = Inl IndexError
       \<and> (\<exists>e. parse E C F S = (Inl e, log, S))
       \<and> ((\<forall>kv \<in> set (takeWhile (\<lambda>kv. fst kv \<noteq> key) parsed).
              \<exists>x. construct_type_dispatch E C (fst kv) (snd kv) = Inr x)
            \<longrightarrow> parse E C F S = (Inl IndexError, log, S))"
proof -
  have r: "construct_type_dispatch E C key (PList []) = Inl IndexError"
    by (simp add: resolves_singleton_rule [OF assms(1)] singleton_rule_empty)
  have m: "(key, PList []) \<in> set parsed" using assms(4) by (rule map_of_SomeD)
  from convert_known_types_fails [where t = "construct_type_dispatch E C", OF m r]
  obtain e' where "convert_known_types (construct_type_dispatch E C) parsed = Inl e'" by blast
  then have f: "\<exists>e. parse E C F S = (Inl e, log, S)"
    by (simp add: parse_def assms(2,3))
  have g: "(\<forall>kv \<in> set (takeWhile (\<lambda>kv. fst kv \<noteq> key) parsed).
              \<exists>x. construct_type_dispatch E C (fst kv) (snd kv) = Inr x)
            \<longrightarrow> parse E C F S = (Inl IndexError, log, S)"
  proof
    assume "\<forall>kv \<in> set (takeWhile (\<lambda>kv. fst kv \<noteq> key) parsed).
              \<exists>x. construct_type_dispatch E C (fst kv) (snd kv) = Inr x"
    from convert_known_types_first_failure [OF assms(4) r this]
    show "parse E C F S = (Inl IndexError, log, S)"
      by (simp add: parse_def assms(2,3))
  qed
  from r f g show ?thesis by blast
qed

lemma example_accumulate_empty_value:
  "accumulate example_cls (split_nl ''x = 1 2\<newline>nsteps'') [] []
     = (Inr [(''x'', PList [PStr ''1'', PStr ''2'']), (''nsteps'', PList [])], [])"
  by (simp add: example_defs)

theorem singleton_empty_value_fails_parse_witness:
  "resolves_singleton example_cls ''nsteps'' DInt
   \<and> read_text example_fs_empty_value (original_file example_store) = Inr ''x = 1 2\<newline>nsteps''
   \<and> parse example_env example_cls example_fs_empty_value example_store
        = (Inl IndexError, [], example_store)"
proof -
  have a: "read_text example_fs_empty_value (original_file example_store) = Inr ''x = 1 2\<newline>nsteps''"
    by (simp add: fs_defs example_fs_empty_value_def example_store_def)
  have b: "map_of [(''x'', PList [PStr ''1'', PStr ''2'']), (''nsteps'', PList [])] ''nsteps''
            = Some (PList [] :: int pyval)" by simp
  have c: "\<forall>kv \<in> set (takeWhile (\<lambda>kv. fst kv \<noteq> ''nsteps'')
               [(''x'', PList [PStr ''1'', PStr ''2'']), (''nsteps'', PList [])]).
             \<exists>x. construct_type_dispatch example_env example_cls (fst kv) (snd kv) = Inr x"
    by (simp add: dispatch_defs example_defs)
  show ?thesis
    using singleton_empty_value_fails_parse
      [OF example_nsteps_singleton a example_accumulate_empty_value b, of example_env]
      c example_nsteps_singleton a
    by blast
qed

subsection \<open>Parsing: duplicate keys\<close>

lemma keys_dict_set: "fst ` set (dict_set d k v) = insert k (fst ` set d)"
  by (induction d k v rule: dict_set.induct) auto

lemma distinct_dict_set: "distinct (map fst d) \<Longrightarrow> distinct (map fst (dict_set d k v))"
  by (induction d k v rule: dict_set.induct) (auto simp: keys_dict_set)

lemma map_of_dict_update: "map_of (dict_update d kvs) = map_of d ++ map_of (rev kvs)"
  by (induction d kvs rule: dict_update.induct)
    (auto simp: map_of_dict_set fun_eq_iff map_add_def split: option.splits)

lemma keys_dict_update: "fst ` set (dict_update d kvs) = fst ` set d \<union> fst ` set kvs"
  by (induction d kvs rule: dict_update.induct) (auto simp: keys_dict_set)

lemma distinct_dict_update: "distinct (map fst d) \<Longrightarrow> distinct (map fst (dict_update d kvs))"
  by (induction d kvs rule: dict_update.induct) (auto simp: distinct_dict_set)

lemma accumulate_total:
  "\<forall>line \<in> set lines. \<exists>d. parse_line C line = Inr d
   \<Longrightarrow> \<exists>parsed log. accumulate C lines p0 l0 = (Inr parsed, log)"
  by (induction lines arbitrary: p0 l0) auto

lemma accumulate_log_mono:
  "accumulate C lines p0 l0 = (r, log) \<Longrightarrow> set l0 \<subseteq> set log"
proof (induction lines arbitrary: p0 l0)
  case Nil
  then show ?case by simp
next
  case (Cons line rest)
  show ?case
  proof (cases "parse_line C line")
    case (Inl e)
    with Cons.prems show ?thesis by simp
  next
    case (Inr d)
    with Cons.prems Cons.IH show ?thesis by fastforce
  qed
qed

lemma accumulate_distinct:
  "accumulate C lines p0 l0 = (Inr parsed, log) \<Longrightarrow> distinct (map fst p0)
   \<Longrightarrow> distinct (map fst parsed)"
proof (induction lines arbitrary: p0 l0)
  case Nil
  then show ?case by simp
next
  case (Cons line rest)
  from Cons.prems(1) obtain d where d: "parse_line C line = Inr d"
    by (cases "parse_line C line") auto
  with Cons.prems show ?case
    by (auto intro!: Cons.IH [where ?p0.0 = "dict_update p0 d"] simp: distinct_dict_update)
qed

lemma accumulate_map_of:
  "accumulate C lines p0 l0 = (Inr parsed, log)
   \<Longrightarrow> map_of parsed = map_of p0 ++ map_of (rev (concat (map (line_items C) lines)))"
proof (induction lines arbitrary: p0 l0)
  case Nil
  then show ?case by simp
next
  case (Cons line rest)
  from Cons.prems obtain d where d: "parse_line C line = Inr d"
    by (cases "parse_line C line") auto
  with Cons.prems have "map_of parsed =
      map_of (dict_update p0 d) ++ map_of (rev (concat (map (line_items C) rest)))"
    by (auto intro: Cons.IH)
  moreover from d have "line_items C line = d" by (simp add: line_items_def)
  ultimately show ?case by (simp add: map_of_dict_update)
qed

lemma accumulate_warns:
  "accumulate C lines p0 l0 = (Inr parsed, log) \<Longrightarrow> key \<in> fst ` set p0
   \<Longrightarrow> \<exists>l \<in> set lines. key \<in> fst ` set (line_items C l)
   \<Longrightarrow> warning_msg key \<in> set log"
proof (induction lines arbitrary: p0 l0)
  case Nil
  then show ?case by simp
next
  case (Cons line rest)
  from Cons.prems(1) obtain d where d: "parse_line C line = Inr d"
    by (cases "parse_line C line") auto
  let ?l1 = "l0 @ map warning_msg (filter (\<lambda>key. map_of p0 key \<noteq> None) (map fst d))"
  from Cons.prems(1) d have acc: "accumulate C rest (dict_update p0 d) ?l1 = (Inr parsed, log)"
    by simp
  show ?case
  proof (cases "key \<in> fst ` set d")
    case True
    from Cons.prems(2) have "map_of p0 key \<noteq> None"
      by (metis domIff dom_map_of_conv_image_fst)
    with True have "warning_msg key \<in> set ?l1" by auto
    with accumulate_log_mono [OF acc] show ?thesis by blast
  next
    case False
    with Cons.prems(3) d have "\<exists>l \<in> set rest. key \<in> fst ` set (line_items C l)"
      by (auto simp: line_items_def)
    moreover from Cons.prems(2) have "key \<in> fst ` set (dict_update p0 d)"
      by (simp add: keys_dict_update)
    ultimately show ?thesis using acc Cons.IH by blast
  qed
qed

lemma accumulate_warns_duplicate:
  "accumulate C lines p0 l0 = (Inr parsed, log) \<Longrightarrow> spec_duplicated C lines key
   \<Longrightarrow> warning_msg key \<in> set log"
proof (induction lines arbitrary: p0 l0)
  case Nil
  then show ?case by (simp add: spec_duplicated_def)
next
  case (Cons line rest)
  from Cons.prems(1) obtain d where d: "parse_line C line = Inr d"
    by (cases "parse_line C line") auto
  let ?l1 = "l0 @ map warning_msg (filter (\<lambda>key. map_of p0 key \<noteq> None) (map fst d))"
  from Cons.prems(1) d have acc: "accumulate C rest (dict_update p0 d) ?l1 = (Inr parsed, log)"
    by simp
  from Cons.prems(2) obtain i j where ij: "i < j" "j < length (line # rest)"
    and ki: "key \<in> fst ` set (line_items C ((line # rest) ! i))"
    and kj: "key \<in> fst ` set (line_items C ((line # rest) ! j))"
    unfolding spec_duplicated_def by blast
  from ij obtain j' where j': "j = Suc j'" "j' < length rest" by (cases j) auto
  show ?case
  proof (cases i)
    case 0
    with ki d have "key \<in> fst ` set (dict_update p0 d)"
      by (simp add: keys_dict_update line_items_def)
    moreover from kj j' have "\<exists>l \<in> set rest. key \<in> fst ` set (line_items C l)"
      by (auto intro: bexI [where x = "rest ! j'"])
    ultimately show ?thesis using acc accumulate_warns by blast
  next
    case (Suc i')
    with ij j' ki kj have "spec_duplicated C rest key"
      by (auto simp: spec_duplicated_def)
    with acc Cons.IH show ?thesis by blast
  qed
qed

lemma convert_known_types_map_of:
  "convert_known_types t kvs = Inr cfg \<Longrightarrow> map_of kvs key = Some v
   \<Longrightarrow> \<exists>x. t key v = Inr x \<and> map_of cfg key = Some x"
proof (induction kvs arbitrary: cfg)
  case Nil
  then show ?case by simp
next
  case (Cons p kvs)
  obtain k w where p: "p = (k, w)" by (cases p)
  from Cons.prems(1) p obtain x xs where x: "t k w = Inr x"
    and xs: "convert_known_types t kvs = Inr xs" and cfg: "cfg = (k, x) # xs"
    by (auto split: sum.splits)
  show ?case
  proof (cases "k = key")
    case True
    with Cons.prems(2) p x cfg show ?thesis by simp
  next
    case False
    with Cons.prems(2) p have "map_of kvs key = Some v" by simp
    from Cons.IH [OF xs this] False cfg show ?thesis by simp
  qed
qed

lemma convert_known_types_failure:
  "convert_known_types t kvs = Inl e \<Longrightarrow> \<exists>k w. (k, w) \<in> set kvs \<and> t k w = Inl e"
proof (induction kvs)
  case Nil
  then show ?case by simp
next
  case (Cons p kvs)
  obtain k w where p: "p = (k, w)" by (cases p)
  show ?case
  proof (cases "t k w")
    case (Inl e')
    with Cons.prems p show ?thesis by auto
  next
    case (Inr x)
    with Cons.prems p have "convert_known_types t kvs = Inl e" by (auto split: sum.splits)
    with Cons.IH show ?thesis by auto
  qed
qed

text \<open>
  C4. A file that is read and whose lines the line grammar all accepts, and a key that
  more than one line produces: the loop of \<open>parse\<close> does not fail; the warning for the
  key is logged; when \<open>parse\<close> succeeds the entry of the key is the rule of the key
  applied to the value of its last occurrence; and when \<open>parse\<close> raises, the exception
  is that of a rule on the last value of some key, never one caused by the duplicate.
\<close>

theorem duplicate_key_policy:
  assumes rd: "read_text F (original_file S) = Inr file_content"
    and ok: "\<forall>line \<in> set (split_nl file_content). \<exists>d. parse_line C line = Inr d"
    and dup: "spec_duplicated C (split_nl file_content) key"
  shows "\<exists>r log S' v. parse E C F S = (r, log, S')
           \<and> warning_msg key \<in> set log
           \<and> spec_last_value C (split_nl file_content) key = Some v
           \<and> (r = Inr () \<longrightarrow> getitem S' key = construct_type_dispatch E C key v
                              \<and> (\<exists>x. getitem S' key = Inr x))
           \<and> (\<forall>e. r = Inl e \<longrightarrow>
                 (\<exists>k w. spec_last_value C (split_nl file_content) k = Some w
                        \<and> construct_type_dispatch E C k w = Inl e))"
proof -
  let ?lines = "split_nl file_content"
  let ?t = "construct_type_dispatch E C"
  from accumulate_total [OF ok] obtain parsed log
    where acc: "accumulate C ?lines [] [] = (Inr parsed, log)" by blast
  have w: "warning_msg key \<in> set log" by (rule accumulate_warns_duplicate [OF acc dup])
  have m: "map_of parsed = spec_last_value C ?lines"
    using accumulate_map_of [OF acc] by (simp add: spec_last_value_def fun_eq_iff)
  have dist: "distinct (map fst parsed)" using accumulate_distinct [OF acc] by simp
  from dup obtain j where "j < length ?lines" "key \<in> fst ` set (line_items C (?lines ! j))"
    by (auto simp: spec_duplicated_def)
  then have "key \<in> fst ` set (rev (concat (map (line_items C) ?lines)))"
    using nth_mem by force
  then obtain v where v: "spec_last_value C ?lines key = Some v"
    unfolding spec_last_value_def by (metis domD dom_map_of_conv_image_fst)
  show ?thesis
  proof (cases "convert_known_types ?t parsed")
    case (Inl e)
    then have p: "parse E C F S = (Inl e, log, S)" by (simp add: parse_def rd acc)
    from convert_known_types_failure [OF Inl] obtain k w'
      where "(k, w') \<in> set parsed" "?t k w' = Inl e" by blast
    with dist m have "spec_last_value C ?lines k = Some w' \<and> ?t k w' = Inl e"
      by (metis map_of_is_SomeI)
    with p w v show ?thesis by auto
  next
    case (Inr cfg)
    then have p: "parse E C F S = (Inr (), log, S\<lparr>config := cfg, changed_flag := False\<rparr>)"
      by (simp add: parse_def rd acc)
    from v m have "map_of parsed key = Some v" by simp
    from convert_known_types_map_of [OF Inr this] obtain x
      where "?t key v = Inr x" "map_of cfg key = Some x" by blast
    then have "getitem (S\<lparr>config := cfg, changed_flag := False\<rparr>) key = ?t key v
         \<and> (\<exists>x. getitem (S\<lparr>config := cfg, changed_flag := False\<rparr>) key = Inr x)"
      by (simp add: getitem_def)
    with p w v show ?thesis by blast
  qed
qed


lemma example_duplicate_lines: "split_nl ''x = 1\<newline>x = 2'' = [''x = 1'', ''x = 2'']"
  by simp

lemma example_line_x1: "parse_line example_cls ''x = 1'' = Inr [(''x'', PList [PStr ''1''])]"
  by (simp add: example_defs)

lemma example_line_x2: "parse_line example_cls ''x = 2'' = Inr [(''x'', PList [PStr ''2''])]"
  by (simp add: example_defs)

theorem duplicate_key_policy_witness:
  "read_text example_fs_duplicate (original_file example_store) = Inr ''x = 1\<newline>x = 2''
   \<and> split_nl ''x = 1\<newline>x = 2'' = [''x = 1'', ''x = 2'']
   \<and> parse_line example_cls ''x = 1'' = Inr [(''x'', PList [PStr ''1''])]
   \<and> parse_line example_cls ''x = 2'' = Inr [(''x'', PList [PStr ''2''])]
   \<and> spec_duplicated example_cls (split_nl ''x = 1\<newline>x = 2'') ''x''
   \<and> parse example_env example_cls example_fs_duplicate example_store
        = (Inr (), [warning_msg ''x''], example_store_x2)
   \<and> spec_last_value example_cls (split_nl ''x = 1\<newline>x = 2'') ''x'' = Some (PList [PStr ''2''])
   \<and> getitem example_store_x2 ''x''
        = construct_type_dispatch example_env example_cls ''x'' (PList [PStr ''2''])"
proof -
  have a: "read_text example_fs_duplicate (original_file example_store) = Inr ''x = 1\<newline>x = 2''"
    by (simp add: fs_defs example_fs_duplicate_def example_store_def)
  have b: "\<forall>line \<in> set (split_nl ''x = 1\<newline>x = 2''). \<exists>d. parse_line example_cls line = Inr d"
    unfolding example_duplicate_lines using example_line_x1 example_line_x2 by simp
  have "(0::nat) < 1 \<and> 1 < length [''x = 1'', ''x = 2'']
        \<and> ''x'' \<in> fst ` set (line_items example_cls ([''x = 1'', ''x = 2''] ! 0))
        \<and> ''x'' \<in> fst ` set (line_items example_cls ([''x = 1'', ''x = 2''] ! 1))"
    by (simp add: line_items_def example_line_x1 example_line_x2)
  then have c: "spec_duplicated example_cls (split_nl ''x = 1\<newline>x = 2'') ''x''"
    unfolding spec_duplicated_def example_duplicate_lines by blast
  have acc: "accumulate example_cls [''x = 1'', ''x = 2''] [] []
               = (Inr [(''x'', PList [PStr ''2''])], [warning_msg ''x''])"
    by (simp add: example_line_x1 example_line_x2)
  have d: "parse example_env example_cls example_fs_duplicate example_store
             = (Inr (), [warning_msg ''x''], example_store_x2)"
    unfolding parse_def a example_duplicate_lines acc
    by (simp add: dispatch_defs example_defs example_store_def example_store_x2_def)
  from duplicate_key_policy [OF a b c, of example_env] d
  obtain v where v: "spec_last_value example_cls (split_nl ''x = 1\<newline>x = 2'') ''x'' = Some v"
    and g: "getitem example_store_x2 ''x'' = construct_type_dispatch example_env example_cls ''x'' v"
    by auto
  have "spec_last_value example_cls (split_nl ''x = 1\<newline>x = 2'') ''x'' = Some (PList [PStr ''2''])"
    by (simp add: spec_last_value_def line_items_def example_line_x1 example_line_x2)
  with v g have "getitem example_store_x2 ''x''
        = construct_type_dispatch example_env example_cls ''x'' (PList [PStr ''2''])"
    by simp
  with a c d v \<open>spec_last_value example_cls (split_nl ''x = 1\<newline>x = 2'') ''x'' = Some (PList [PStr ''2''])\<close>
    example_duplicate_lines example_line_x1 example_line_x2
  show ?thesis by simp
qed

subsection \<open>Re-pointing \<open>original_file\<close>\<close>

lemma list_rule_fresh: "list_rule E d v = Inr en \<Longrightarrow> \<not> entry_changed en"
  by (auto simp: list_rule_def TypedFlagChangeList_init_def entry_changed_def split: sum.splits)

lemma singleton_rule_fresh: "singleton_rule E d v = Inr en \<Longrightarrow> \<not> entry_changed en"
  by (auto simp: singleton_rule_def entry_changed_def split: sum.splits)

lemma dispatch_fresh:
  assumes "fresh_rules C" and "construct_type_dispatch E C k v = Inr en"
  shows "\<not> entry_changed en"
proof (cases "SPECIAL_PARAM_DISPATCH C k")
  case None
  with assms(2) show ?thesis
    by (auto simp: construct_type_dispatch_def update_params_def
        dest: list_rule_fresh singleton_rule_fresh split: if_splits)
next
  case (Some f)
  with assms(2) obtain l where "f v = Inr l" "en = Container l"
    by (auto simp: construct_type_dispatch_def special_rule_def split: sum.splits)
  with assms(1) Some show ?thesis by (auto simp: fresh_rules_def entry_changed_def)
qed

lemma convert_known_types_fresh:
  "fresh_rules C \<Longrightarrow> convert_known_types (construct_type_dispatch E C) kvs = Inr cfg
   \<Longrightarrow> \<forall>kv \<in> set cfg. \<not> entry_changed (snd kv)"
proof (induction kvs arbitrary: cfg)
  case Nil
  then show ?case by simp
next
  case (Cons p kvs)
  obtain k w where p: "p = (k, w)" by (cases p)
  from Cons.prems(2) p obtain x xs where x: "construct_type_dispatch E C k w = Inr x"
    and xs: "convert_known_types (construct_type_dispatch E C) kvs = Inr xs"
    and cfg: "cfg = (k, x) # xs"
    by (auto split: sum.splits)
  from dispatch_fresh [OF Cons.prems(1) x] Cons.IH [OF Cons.prems(1) xs] cfg
  show ?case by simp
qed

lemma parse_success:
  "parse E C F S = (Inr (), log, S') \<Longrightarrow>
     \<exists>c parsed cfg. read_text F (original_file S) = Inr c
        \<and> accumulate C (split_nl c) [] [] = (Inr parsed, log)
        \<and> convert_known_types (construct_type_dispatch E C) parsed = Inr cfg
        \<and> S' = S\<lparr>config := cfg, changed_flag := False\<rparr>"
  by (auto simp: parse_def split: sum.splits prod.splits)

lemma parse_only_reads_original_file:
  "original_file S1 = original_file S2 \<Longrightarrow> parse E C F S2 = (Inr (), log, S2')
   \<Longrightarrow> parse E C F S1 = (Inr (), log, S1\<lparr>config := config S2', changed_flag := False\<rparr>)"
proof -
  assume o: "original_file S1 = original_file S2" and p: "parse E C F S2 = (Inr (), log, S2')"
  from parse_success [OF p] obtain c parsed cfg
    where "read_text F (original_file S2) = Inr c"
      and "accumulate C (split_nl c) [] [] = (Inr parsed, log)"
      and "convert_known_types (construct_type_dispatch E C) parsed = Inr cfg"
      and "S2' = S2\<lparr>config := cfg, changed_flag := False\<rparr>"
    by blast
  then show ?thesis by (simp add: parse_def o)
qed

lemma store_rebuild:
  "S\<lparr>original_file := a, config := c, changed_flag := b\<rparr>
     = \<lparr>original_file = a, config = c, changed_flag = b\<rparr>"
  by simp

text \<open>
  C5, as the claim states it, fails. \<open>/md/bad.mdp\<close> exists, but the rule of
  \<open>nsteps\<close> rejects its value: re-pointing a changed store to it raises, and the
  store keeps its table and is still changed. And with a custom rule that returns a
  list it has already changed, re-pointing succeeds and the store is changed at once.
\<close>

theorem repoint_existing_file_counterexample:
  "isfile example_fs_rejected (abspath example_env ''/md/bad.mdp'')
   \<and> changed example_store_x0
   \<and> set_original_file example_env example_cls example_fs_rejected example_store_x0 ''/md/bad.mdp''
       = (Inl BuiltinValueError, [], example_store_x0\<lparr>original_file := ''/md/bad.mdp''\<rparr>)
   \<and> config (example_store_x0\<lparr>original_file := ''/md/bad.mdp''\<rparr>) = config example_store_x0
   \<and> changed (example_store_x0\<lparr>original_file := ''/md/bad.mdp''\<rparr>)
   \<and> isfile example_fs_two (abspath example_env ''/md/other.mdp'')
   \<and> set_original_file example_env example_cls_dirty example_fs_two example_store ''/md/other.mdp''
       = (Inr (), [], example_store_dirty)
   \<and> changed example_store_dirty"
proof -
  have a: "isfile example_fs_rejected (abspath example_env ''/md/bad.mdp'')"
    by (simp add: fs_defs example_fs_rejected_def example_env_def)
  have b: "changed example_store_x0"
    by (simp add: changed_def example_store_x0_def entry_changed_def)
  have c: "set_original_file example_env example_cls example_fs_rejected example_store_x0 ''/md/bad.mdp''
       = (Inl BuiltinValueError, [], example_store_x0\<lparr>original_file := ''/md/bad.mdp''\<rparr>)"
    by (simp add: set_original_file_def parse_def fs_defs example_fs_rejected_def
        dispatch_defs example_defs)
  have d: "changed (example_store_x0\<lparr>original_file := ''/md/bad.mdp''\<rparr>)"
    by (simp add: changed_def example_store_x0_def entry_changed_def)
  have e: "isfile example_fs_two (abspath example_env ''/md/other.mdp'')"
    by (simp add: fs_defs example_fs_two_def example_env_def)
  have f: "set_original_file example_env example_cls_dirty example_fs_two example_store ''/md/other.mdp''
       = (Inr (), [], example_store_dirty)"
    by (simp add: set_original_file_def parse_def fs_defs example_fs_two_def dispatch_defs
        example_defs example_cls_dirty_def example_dirty_rule_def FlagChangeList_insert_def
        convert_type_def list_insert_def example_store_def example_store_dirty_def)
  have g: "changed example_store_dirty"
    by (simp add: changed_def example_store_dirty_def entry_changed_def)
  from a b c d e f g show ?thesis by simp
qed

text \<open>
  C5, amended. For a file to which a store can be bound (it exists, the line grammar
  accepts its lines and the values of its keys convert) and custom rules that return
  lists not yet changed, assigning the path of the file to \<open>original_file\<close> of any
  store, whatever its table and flags, succeeds and yields exactly the store a new
  binding to the file yields: the former table is gone, the store-level flag and the
  flag of every entry are false, and \<open>changed\<close> is false.
\<close>

theorem repoint_original_file:
  assumes "LineBasedMDConfig_init E C F p = (Inr S0, log)"
    and "fresh_rules C"
  shows "set_original_file E C F S p = (Inr (), log, S0)
       \<and> isfile F (abspath E p)
       \<and> original_file S0 = abspath E p
       \<and> \<not> changed_flag S0
       \<and> (\<forall>kv \<in> set (config S0). \<not> entry_changed (snd kv))
       \<and> \<not> changed S0"
proof -
  let ?init = "\<lparr>original_file = [], config = [], changed_flag = False\<rparr> :: 'a store"
  from assms(1) have s0: "set_original_file E C F ?init p = (Inr (), log, S0)"
    by (auto simp: LineBasedMDConfig_init_def split: prod.splits sum.splits)
  then have f: "isfile F (abspath E p)"
    by (auto simp: set_original_file_def Let_def split: if_splits)
  with s0 have p0: "parse E C F (?init\<lparr>original_file := abspath E p\<rparr>) = (Inr (), log, S0)"
    by (simp add: set_original_file_def Let_def)
  from parse_success [OF p0] obtain c parsed cfg
    where cfg: "convert_known_types (construct_type_dispatch E C) parsed = Inr cfg"
      and S0: "S0 = \<lparr>original_file = abspath E p, config = cfg, changed_flag = False\<rparr>"
    by auto
  have "parse E C F (S\<lparr>original_file := abspath E p\<rparr>)
          = (Inr (), log, S\<lparr>original_file := abspath E p\<rparr>\<lparr>config := config S0, changed_flag := False\<rparr>)"
    by (rule parse_only_reads_original_file [OF _ p0]) simp
  with f S0 have a: "set_original_file E C F S p = (Inr (), log, S0)"
    by (simp add: set_original_file_def Let_def)
  have e: "\<forall>kv \<in> set (config S0). \<not> entry_changed (snd kv)"
    using convert_known_types_fresh [OF assms(2) cfg] S0 by simp
  have "\<not> changed S0" using e S0 by (simp add: changed_iff)
  with a f e S0 show ?thesis by simp
qed

lemma example_fresh_rules: "fresh_rules example_cls"
  by (auto simp: fresh_rules_def example_defs example_define_rule_def split: pyval.splits if_splits)

lemma example_init_other:
  "LineBasedMDConfig_init example_env example_cls example_fs_two ''/md/other.mdp''
     = (Inr example_store_other, [])"
proof -
  have a: "abspath example_env ''/md/other.mdp'' = ''/md/other.mdp''" by (simp add: example_env_def)
  have b: "isfile example_fs_two ''/md/other.mdp''" by (simp add: fs_defs example_fs_two_def)
  have c: "read_text example_fs_two ''/md/other.mdp'' = Inr ''; run\<newline>dt = 2\<newline>define = -DFLEX''"
    by (simp add: fs_defs example_fs_two_def)
  have p: "parse example_env example_cls example_fs_two
             \<lparr>original_file = ''/md/other.mdp'', config = [], changed_flag = False\<rparr>
           = (Inr (), [], example_store_other)"
    by (simp add: parse_def c dispatch_defs example_defs example_define_rule_def
        example_store_other_def)
  show ?thesis
    by (simp add: LineBasedMDConfig_init_def set_original_file_def a b p)
qed

theorem repoint_original_file_witness:
  "LineBasedMDConfig_init example_env example_cls example_fs_two ''/md/other.mdp''
     = (Inr example_store_other, [])
   \<and> fresh_rules example_cls
   \<and> changed example_store_x0
   \<and> set_original_file example_env example_cls example_fs_two example_store_x0 ''/md/other.mdp''
       = (Inr (), [], example_store_other)
   \<and> \<not> changed example_store_other"
proof -
  have c: "changed example_store_x0"
    by (simp add: changed_def example_store_x0_def entry_changed_def)
  show ?thesis
    using repoint_original_file [OF example_init_other example_fresh_rules, of example_store_x0]
      example_init_other example_fresh_rules c
    by simp
qed

subsection \<open>Writing an unchanged store\<close>

text \<open>
  C1, as the claim states it, fails. A store is bound to \<open>/md/in.mdp\<close>; a second
  store, bound to \<open>/md/other.mdp\<close>, is written over \<open>/md/in.mdp\<close>. The first store
  is still unchanged, and writing it out copies the file as it is now: a store bound to
  the copy has the table of the second store, not of the first.
\<close>

theorem round_trip_stale_file_counterexample:
  "LineBasedMDConfig_init example_env example_cls example_fs_two ''/md/in.mdp''
     = (Inr example_store, [])
   \<and> write_config example_env example_cls example_store_other ''/md/in.mdp'' True example_fs_two
       = (Inr (), example_store_other, example_fs_overwritten)
   \<and> \<not> changed example_store
   \<and> write_config example_env example_cls example_store ''/md/out.mdp'' False example_fs_overwritten
       = (Inr (), example_store, example_fs_stale_copy)
   \<and> LineBasedMDConfig_init example_env example_cls example_fs_stale_copy ''/md/out.mdp''
       = (Inr (example_store_other\<lparr>original_file := ''/md/out.mdp''\<rparr>), [])
   \<and> config (example_store_other\<lparr>original_file := ''/md/out.mdp''\<rparr>) \<noteq> config example_store"
proof -
  have a: "LineBasedMDConfig_init example_env example_cls example_fs_two ''/md/in.mdp''
             = (Inr example_store, [])"
    by (simp add: LineBasedMDConfig_init_def set_original_file_def fs_defs parse_def
        fs_defs example_fs_two_def example_store_def dispatch_defs example_defs)
  have nb: "\<not> changed example_store_other"
    by (simp add: changed_def example_store_other_def entry_changed_def)
  have b: "write_config example_env example_cls example_store_other ''/md/in.mdp'' True example_fs_two
             = (Inr (), example_store_other, example_fs_overwritten)"
  proof -
    have o: "original_file example_store_other = ''/md/other.mdp''"
      by (simp add: example_store_other_def)
    show ?thesis
      by (simp add: write_config_def nb o copy2_def fs_defs
          example_env_def example_fs_two_def example_fs_overwritten_def)
  qed
  have c: "\<not> changed example_store"
    by (simp add: changed_def example_store_def entry_changed_def)
  have d: "write_config example_env example_cls example_store ''/md/out.mdp'' False example_fs_overwritten
             = (Inr (), example_store, example_fs_stale_copy)"
  proof -
    have o: "original_file example_store = ''/md/in.mdp''"
      by (simp add: example_store_def)
    show ?thesis
      by (simp add: write_config_def c o copy2_def fs_defs
          fs_defs example_env_def example_fs_two_def example_fs_overwritten_def
          example_fs_stale_copy_def)
  qed
  have e: "LineBasedMDConfig_init example_env example_cls example_fs_stale_copy ''/md/out.mdp''
             = (Inr (example_store_other\<lparr>original_file := ''/md/out.mdp''\<rparr>), [])"
    by (simp add: LineBasedMDConfig_init_def set_original_file_def fs_defs parse_def
        fs_defs example_fs_stale_copy_def example_fs_overwritten_def example_fs_two_def
        example_store_other_def dispatch_defs example_defs example_define_rule_def)
  have f: "config (example_store_other\<lparr>original_file := ''/md/out.mdp''\<rparr>) \<noteq> config example_store"
    by (simp add: example_store_other_def example_store_def)
  from a b c d e f show ?thesis by blast
qed

lemma dirs_above_shorter:
  "d \<in> set (dirs_above acc cs) \<Longrightarrow> length d < length acc + length cs"
  by (induction cs arbitrary: acc) (fastforce split: if_splits)+

lemma not_own_ancestor: "p \<notin> set (ancestors p)"
  using dirs_above_shorter [of p "[]" p] by (auto simp: ancestors_def)

lemma check_dirs_other: "p \<notin> set ds \<Longrightarrow> check_dirs (F(p \<mapsto> n)) ds = check_dirs F ds"
  by (induction ds) (auto simp: node_at_def split: option.splits node.splits)

lemma absent_target:
  assumes "\<not> exists_path F p" and "check_dirs F (ancestors p) = None"
  shows "node_at F p = None"
  using assms by (auto simp: exists_path_def os_stat_def split: option.splits)

lemma write_text_ok:
  assumes "check_dirs F (ancestors p) = None" and "node_at F p \<noteq> Some Dir"
  shows "write_text F p s = (Inr (), F(p \<mapsto> File s))"
  using assms by (auto simp: write_text_def split: option.splits node.splits)

lemma written_file:
  assumes "check_dirs F (ancestors p) = None" and "p \<noteq> ''/''"
  shows "os_stat (F(p \<mapsto> File s)) p = Inr (File s)"
  using assms by (simp add: os_stat_def node_at_def check_dirs_other [OF not_own_ancestor])

lemma copy2_new_target:
  assumes "read_text F src = Inr c" and "\<not> exists_path F dst"
    and "check_dirs F (ancestors dst) = None"
  shows "copy2 F src dst = (Inr (), F(dst \<mapsto> File c))"
proof -
  from assms(1) have "exists_path F src"
    by (auto simp: read_text_def exists_path_def split: sum.splits)
  with assms(2) have "dst \<noteq> src" by auto
  moreover from assms(2) have "\<not> isdir F dst" by (auto simp: isdir_def exists_path_def)
  moreover have "node_at F dst \<noteq> Some Dir" using absent_target [OF assms(2,3)] by simp
  ultimately show ?thesis
    using assms(1) write_text_ok [OF assms(3), of c] by (simp add: copy2_def)
qed

text \<open>
  C1, amended. A store whose \<open>changed\<close> is false and whose \<open>original_file\<close> can be
  read, and a target that does not exist, in a directory that does: \<open>write\<close> succeeds,
  leaves the store as it is and gives the target the very content of
  \<open>original_file\<close>. When moreover the table of the store is what \<open>original_file\<close>
  parses to now (parsing again would give the store itself), binding a new store to the
  target succeeds and gives the same table, entry by entry, with the same log; only
  \<open>original_file\<close> differs.
\<close>

theorem round_trip_identity:
  assumes "\<not> changed S"
    and "read_text F (original_file S) = Inr c"
    and "\<not> exists_path F (abspath E out)"
    and "check_dirs F (ancestors (abspath E out)) = None"
  shows "write_config E C S out False F = (Inr (), S, F(abspath E out \<mapsto> File c))
       \<and> (\<forall>log. parse E C F S = (Inr (), log, S) \<longrightarrow>
             LineBasedMDConfig_init E C (F(abspath E out \<mapsto> File c)) out
               = (Inr (S\<lparr>original_file := abspath E out\<rparr>), log))"
proof -
  let ?o = "abspath E out"
  let ?F = "F(?o \<mapsto> File c)"
  have w: "write_config E C S out False F = (Inr (), S, ?F)"
    using assms(1,3) copy2_new_target [OF assms(2,3,4)]
    by (simp add: write_config_def)
  from absent_target [OF assms(3,4)] have "?o \<noteq> ''/''" by (auto simp: node_at_def)
  from written_file [OF assms(4) this] have st: "os_stat ?F ?o = Inr (File c)" .
  have r: "\<forall>log. parse E C F S = (Inr (), log, S) \<longrightarrow>
             LineBasedMDConfig_init E C ?F out = (Inr (S\<lparr>original_file := ?o\<rparr>), log)"
  proof (intro allI impI)
    fix log
    assume p: "parse E C F S = (Inr (), log, S)"
    from parse_success [OF p] obtain c' parsed cfg
      where rd: "read_text F (original_file S) = Inr c'"
        and acc: "accumulate C (split_nl c') [] [] = (Inr parsed, log)"
        and cv: "convert_known_types (construct_type_dispatch E C) parsed = Inr cfg"
        and S: "S = S\<lparr>config := cfg, changed_flag := False\<rparr>"
      by blast
    from rd assms(2) have c': "c' = c" by simp
    from S have cf: "config S = cfg" and fl: "changed_flag S = False"
      by (metis store.select_convs(2) store.surjective store.update_convs(2,3),
          metis store.select_convs(3) store.surjective store.update_convs(3))
    have "S\<lparr>original_file := ?o\<rparr> = \<lparr>original_file = ?o, config = cfg, changed_flag = False\<rparr>"
      using cf fl by (cases S) simp
    then show "LineBasedMDConfig_init E C ?F out = (Inr (S\<lparr>original_file := ?o\<rparr>), log)"
      using acc cv c' st
      by (simp add: LineBasedMDConfig_init_def set_original_file_def isfile_def read_text_def
          parse_def)
  qed
  from w r show ?thesis by blast
qed

lemma example_store_parse:
  "parse example_env example_cls example_fs example_store = (Inr (), [], example_store)"
  by (simp add: parse_def fs_defs example_fs_def example_store_def dispatch_defs example_defs)

theorem round_trip_identity_witness:
  "\<not> changed example_store
   \<and> read_text example_fs (original_file example_store) = Inr ''nsteps = 5\<newline>x = 1 2''
   \<and> \<not> exists_path example_fs (abspath example_env ''/md/out.mdp'')
   \<and> check_dirs example_fs (ancestors (abspath example_env ''/md/out.mdp'')) = None
   \<and> parse example_env example_cls example_fs example_store = (Inr (), [], example_store)
   \<and> write_config example_env example_cls example_store ''/md/out.mdp'' False example_fs
        = (Inr (), example_store, example_fs_copied)
   \<and> LineBasedMDConfig_init example_env example_cls example_fs_copied ''/md/out.mdp''
        = (Inr (example_store\<lparr>original_file := ''/md/out.mdp''\<rparr>), [])"
proof -
  have a: "\<not> changed example_store"
    by (simp add: changed_def example_store_def entry_changed_def)
  have b: "read_text example_fs (original_file example_store) = Inr ''nsteps = 5\<newline>x = 1 2''"
    by (simp add: fs_defs example_fs_def example_store_def)
  have c: "\<not> exists_path example_fs (abspath example_env ''/md/out.mdp'')"
    by (simp add: fs_defs example_fs_def example_env_def)
  have d: "check_dirs example_fs (ancestors (abspath example_env ''/md/out.mdp'')) = None"
    by (simp add: fs_defs example_fs_def example_env_def)
  have o: "abspath example_env ''/md/out.mdp'' = ''/md/out.mdp''" by (simp add: example_env_def)
  show ?thesis
    using round_trip_identity [OF a b c d, of example_cls] a b c d example_store_parse
    by (simp add: o example_fs_copied_def)
qed

lemma entry_line_container:
  "entry_line E C (key, Container l) =
     key @ KEY_VALUE_SEPARATOR C @ py_join (INTER_VALUE_CHAR C) (map (py_str E) (l_data l))"
  by (cases "l_data l") (simp_all add: entry_line_def entry_items_def)

text \<open>
  C6. A store whose \<open>changed\<close> is true, and a target that is not a directory, that
  lies in a directory that exists, and that does not exist or may be overwritten:
  \<open>write\<close> succeeds and the whole content of the target is the lines of the entries,
  in table order, joined with a newline; and whenever \<open>write\<close> of a changed store
  succeeds, that is the content of the target. The line of a list entry is the key, the
  key/value separator and the items' strings joined with the inter-value string, so the
  key and the separator alone for an empty list; the line of an integer or float entry
  is the key, the separator and the number's string. The separators that
  \<open>LineBasedMDConfig\<close> declares are \<open>" = "\<close> and \<open>" "\<close>.
\<close>

theorem write_changed_serialises:
  assumes "changed S"
    and "overwrite \<or> \<not> exists_path F (abspath E outfile)"
    and "\<not> isdir F (abspath E outfile)"
    and "check_dirs F (ancestors (abspath E outfile)) = None"
  shows "write_config E C S outfile overwrite F =
           (Inr (), S, F(abspath E outfile \<mapsto> File (py_join [CHR 0x0A] (map (entry_line E C) (config S)))))
       \<and> (\<forall>ov G S' G'. write_config E C S outfile ov G = (Inr (), S', G') \<longrightarrow>
             G' = G(abspath E outfile \<mapsto> File (py_join [CHR 0x0A] (map (entry_line E C) (config S)))))
       \<and> (\<forall>key l. entry_line E C (key, Container l) =
             key @ KEY_VALUE_SEPARATOR C @ py_join (INTER_VALUE_CHAR C) (map (py_str E) (l_data l)))
       \<and> (\<forall>key l. l_data l = [] \<longrightarrow> entry_line E C (key, Container l) = key @ KEY_VALUE_SEPARATOR C)
       \<and> (\<forall>key n. entry_line E C (key, Scalar (PInt n)) = key @ KEY_VALUE_SEPARATOR C @ str_of_int n)
       \<and> (\<forall>key x. entry_line E C (key, Scalar (PFloat x)) = key @ KEY_VALUE_SEPARATOR C @ str_of_float E x)
       \<and> KEY_VALUE_SEPARATOR (LineBasedMDConfig_attrs pl) = '' = ''
       \<and> INTER_VALUE_CHAR (LineBasedMDConfig_attrs pl) = '' ''"
proof -
  let ?out_str = "py_join [CHR 0x0A] (map (entry_line E C) (config S))"
  from assms(3,4) have "node_at F (abspath E outfile) \<noteq> Some Dir"
    by (auto simp: isdir_def os_stat_def)
  from write_text_ok [OF assms(4) this, of ?out_str] assms(1,2)
  have w: "write_config E C S outfile overwrite F = (Inr (), S, F(abspath E outfile \<mapsto> File ?out_str))"
    by (auto simp: write_config_def Let_def)
  have v: "\<forall>ov G S' G'. write_config E C S outfile ov G = (Inr (), S', G') \<longrightarrow>
             G' = G(abspath E outfile \<mapsto> File ?out_str)"
    using assms(1)
    by (auto simp: write_config_def write_text_def Let_def
        split: if_splits option.splits node.splits prod.splits)
  have e: "\<forall>key l. l_data l = [] \<longrightarrow> entry_line E C (key, Container l) = key @ KEY_VALUE_SEPARATOR C"
    by (simp add: entry_line_container)
  have i: "\<forall>key n. entry_line E C (key, Scalar (PInt n)) = key @ KEY_VALUE_SEPARATOR C @ str_of_int n"
    by (simp add: entry_line_def entry_items_def py_str_def)
  have f: "\<forall>key x. entry_line E C (key, Scalar (PFloat x)) = key @ KEY_VALUE_SEPARATOR C @ str_of_float E x"
    by (simp add: entry_line_def entry_items_def py_str_def)
  have d: "KEY_VALUE_SEPARATOR (LineBasedMDConfig_attrs pl) = '' = ''
       \<and> INTER_VALUE_CHAR (LineBasedMDConfig_attrs pl) = '' ''"
    by (simp add: LineBasedMDConfig_attrs_def)
  from w v e i f d entry_line_container show ?thesis by blast
qed

lemma example_serialised:
  "py_join [CHR 0x0A] (map (entry_line example_env example_cls) (config example_store_x0))
     = ''nsteps = 5\<newline>x = 7 2''"
  by (simp add: entry_line_def entry_items_def py_str_def str_of_int_def str_of_nat.simps
      digit_char_def example_store_x0_def example_defs)

theorem write_changed_serialises_witness:
  "changed example_store_x0
   \<and> \<not> exists_path example_fs (abspath example_env ''/md/out.mdp'')
   \<and> \<not> isdir example_fs (abspath example_env ''/md/out.mdp'')
   \<and> check_dirs example_fs (ancestors (abspath example_env ''/md/out.mdp'')) = None
   \<and> write_config example_env example_cls example_store_x0 ''/md/out.mdp'' False example_fs
        = (Inr (), example_store_x0, example_fs_written)"
proof -
  have a: "changed example_store_x0"
    by (simp add: changed_def example_store_x0_def entry_changed_def)
  have b: "False \<or> \<not> exists_path example_fs (abspath example_env ''/md/out.mdp'')"
    by (simp add: fs_defs example_fs_def example_env_def)
  have c: "\<not> isdir example_fs (abspath example_env ''/md/out.mdp'')"
    by (simp add: fs_defs example_fs_def example_env_def)
  have d: "check_dirs example_fs (ancestors (abspath example_env ''/md/out.mdp'')) = None"
    by (simp add: fs_defs example_fs_def example_env_def)
  have o: "abspath example_env ''/md/out.mdp'' = ''/md/out.mdp''" by (simp add: example_env_def)
  show ?thesis
    using write_changed_serialises
      [OF a b c d, where C = example_cls and pl = example_parse_line, THEN conjunct1] a b c d
    by (simp add: o example_serialised example_fs_written_def)
qed

end
